theory Spec2Isabelle
  imports Complex_Main
begin

section \<open>Data model of main.js\<close>

text \<open>
  The game keeps its state in module-level variables and in a few fields of the
  scene objects \<open>mole\<close>, \<open>gridRoot\<close> and \<open>reticle\<close>. The model collects exactly those
  in one record and passes it through every handler.

  JavaScript numbers are modelled as exact reals: timestamps, coordinates and the draws of
  \<open>Math.random()\<close>. Every call of \<open>Math.random()\<close> and of \<open>performance.now()\<close> is an
  explicit argument of the function that makes the call, one argument per call site.
  Meshes, materials, the HUD text and the cosmetic scale tween of \<open>whackMole\<close> are not
  modelled; whether the pointer ray meets the mole (\<open>raycaster.intersectObject\<close>) is the
  boolean argument \<open>hit\<close> of \<open>onPointerDown\<close>.
\<close>

datatype vec3 = Vec3 (vx: real) (vy: real) (vz: real)

datatype quat = Quat (qx: real) (qy: real) (qz: real) (qw: real)

text \<open>\<open>moleState\<close> has the two values the source declares: \<open>'up' | 'down'\<close>.\<close>

datatype mole_state = MDown | MUp

datatype anim_kind = Pop | Hide | Bonk

text \<open>The object stored in \<open>mole.userData.anim\<close>: \<open>{ kind, t0, dur, from, to }\<close>.\<close>

record anim =
  kind :: anim_kind
  t0 :: real
  dur :: real
  afrom :: real
  ato :: real

record game =
  placed :: bool
  paused :: bool
  hitTestSource :: bool
  holes :: "vec3 list"
  moleState :: mole_state
  activeHoleIndex :: int
  nextPopAt :: real
  score :: int
  streak :: int
  upSince :: real
  mole_visible :: bool
  mole_anim :: "anim option"
  mole_position :: vec3
  mole_quaternion :: quat
  gridRoot_position :: vec3
  gridRoot_quaternion :: quat
  reticle_visible :: bool
  reticle_position :: vec3
  reticle_quaternion :: quat

text \<open>
  A handler that dereferences \<open>holes[activeHoleIndex]\<close> outside the array throws a
  \<open>TypeError\<close> (\<open>undefined.position\<close>); the model returns it as a value.
\<close>

datatype js_error = TypeError

subsection \<open>Constants\<close>

definition GRID :: nat where "GRID = 3"
definition SPACING :: real where "SPACING = 0.38"
definition POP_INTERVAL_MIN :: real where "POP_INTERVAL_MIN = 700"
definition POP_INTERVAL_MAX :: real where "POP_INTERVAL_MAX = 1400"
definition UP_DURATION :: real where "UP_DURATION = 900"

text \<open>The state after the module's top-level declarations and \<open>init()\<close>.\<close>

definition init_game :: game where
  "init_game = \<lparr> placed = False, paused = False, hitTestSource = False, holes = [],
     moleState = MDown, activeHoleIndex = -1, nextPopAt = 0, score = 0, streak = 0,
     upSince = 0, mole_visible = False, mole_anim = None,
     mole_position = Vec3 0 0 0, mole_quaternion = Quat 0 0 0 1,
     gridRoot_position = Vec3 0 0 0, gridRoot_quaternion = Quat 0 0 0 1,
     reticle_visible = False, reticle_position = Vec3 0 0 0,
     reticle_quaternion = Quat 0 0 0 1 \<rparr>"

subsection \<open>Utilities\<close>

definition easeOut :: "real \<Rightarrow> real" where
  "easeOut t = 1 - (1 - t) ^ 3"

text \<open>\<open>rand(a,b)\<close>; \<open>rnd\<close> is the value of its \<open>Math.random()\<close> call.\<close>

definition rand :: "real \<Rightarrow> real \<Rightarrow> real \<Rightarrow> real" where
  "rand a b rnd = a + rnd * (b - a)"

text \<open>
  \<open>Vector3.applyQuaternion\<close> and \<open>Vector3.add\<close> of three.js 0.160.0, the library
  the source imports: \<open>t = 2 * cross(q.xyz, v)\<close>, then \<open>v + q.w * t + cross(q.xyz, t)\<close>.
\<close>

definition applyQuaternion :: "quat \<Rightarrow> vec3 \<Rightarrow> vec3" where
  "applyQuaternion q v =
     (let tx = 2 * (qy q * vz v - qz q * vy v);
          ty = 2 * (qz q * vx v - qx q * vz v);
          tz = 2 * (qx q * vy v - qy q * vx v)
      in Vec3 (vx v + qw q * tx + qy q * tz - qz q * ty)
              (vy v + qw q * ty + qz q * tx - qx q * tz)
              (vz v + qw q * tz + qx q * ty - qy q * tx))"

definition vadd :: "vec3 \<Rightarrow> vec3 \<Rightarrow> vec3" where
  "vadd a b = Vec3 (vx a + vx b) (vy a + vy b) (vz a + vz b)"

subsection \<open>Grid\<close>

definition clearGrid :: "game \<Rightarrow> game" where
  "clearGrid s = s\<lparr>holes := []\<rparr>"

text \<open>The body of the inner loop of \<open>buildGrid\<close>: the position of the hole of cell \<open>(r, c)\<close>.\<close>

definition holePosition :: "vec3 \<Rightarrow> quat \<Rightarrow> nat \<Rightarrow> nat \<Rightarrow> vec3" where
  "holePosition p q r c =
     (let offset = (real GRID - 1) * SPACING * 0.5
      in vadd (applyQuaternion q
                 (Vec3 (real c * SPACING - offset) 0 (real r * SPACING - offset))) p)"

text \<open>
  The two nested \<open>for\<close> loops, \<open>r\<close> outside and \<open>c\<close> inside, each pushing one hole
  at the end of \<open>holes\<close>.
\<close>

definition buildGrid :: "game \<Rightarrow> game" where
  "buildGrid s =
     foldl (\<lambda>s1 r. foldl (\<lambda>s2 c.
              s2\<lparr>holes := holes s2 @
                   [holePosition (gridRoot_position s2) (gridRoot_quaternion s2) r c]\<rparr>)
            s1 [0..<GRID])
       (clearGrid s) [0..<GRID]"

subsection \<open>Mole logic\<close>

definition scheduleNextPop :: "real \<Rightarrow> real \<Rightarrow> game \<Rightarrow> game" where
  "scheduleNextPop now rnd s =
     s\<lparr>nextPopAt := now + rand POP_INTERVAL_MIN POP_INTERVAL_MAX rnd\<rparr>"

definition validIndex :: "game \<Rightarrow> bool" where
  "validIndex s \<longleftrightarrow> 0 \<le> activeHoleIndex s \<and> activeHoleIndex s < int (length (holes s))"

definition activeHole :: "game \<Rightarrow> vec3" where
  "activeHole s = holes s ! nat (activeHoleIndex s)"

definition setY :: "real \<Rightarrow> vec3 \<Rightarrow> vec3" where
  "setY y v = Vec3 (vx v) y (vz v)"

text \<open>
  \<open>updateMole\<close> is three consecutive \<open>if\<close> statements; each is one function here, in the
  order of the source. The first: a mole that is down pops at a random hole when its time
  has come. \<open>rnd\<close> is the draw of \<open>Math.random()\<close> for the hole.
\<close>

definition popDue :: "real \<Rightarrow> game \<Rightarrow> bool" where
  "popDue nowMs s \<longleftrightarrow> moleState s = MDown \<and> nowMs \<ge> nextPopAt s \<and> holes s \<noteq> []"

definition popBlock :: "real \<Rightarrow> real \<Rightarrow> game \<Rightarrow> js_error + game" where
  "popBlock nowMs rnd s =
     (if popDue nowMs s then
        let s1 = s\<lparr>activeHoleIndex := \<lfloor>rnd * real (length (holes s))\<rfloor>\<rparr> in
        if validIndex s1 then
          let hole = activeHole s1 in
          Inr (s1\<lparr>mole_position := setY (vy hole + (- 0.02)) hole,
                  mole_quaternion := gridRoot_quaternion s1,
                  mole_visible := True,
                  mole_anim := Some \<lparr>kind = Pop, t0 = nowMs, dur = 180,
                                      afrom = - 0.02, ato = 0.16\<rparr>,
                  moleState := MUp,
                  upSince := nowMs\<rparr>)
        else Inl TypeError
      else Inr s)"

text \<open>
  The second: the running animation moves the mole and, at its end, a \<open>pop\<close> is cleared
  and a \<open>hide\<close> or \<open>bonk\<close> hides the mole, sets \<open>moleState = 'down'\<close> and schedules the
  next pop. \<open>rnd\<close> is the draw of \<open>Math.random()\<close> inside \<open>scheduleNextPop\<close>.
\<close>

definition animBlock :: "real \<Rightarrow> real \<Rightarrow> game \<Rightarrow> js_error + game" where
  "animBlock nowMs rnd s =
     (if mole_visible s then
        (case mole_anim s of
           None \<Rightarrow> Inr s
         | Some a \<Rightarrow>
             let t = min 1 ((nowMs - t0 a) / dur a);
                 y = afrom a + (ato a - afrom a) * easeOut t
             in if validIndex s then
                  let s1 = s\<lparr>mole_position := setY (vy (activeHole s) + y) (mole_position s)\<rparr>
                  in if t \<ge> 1 then
                       (case kind a of
                          Pop \<Rightarrow> Inr (s1\<lparr>mole_anim := None\<rparr>)
                        | _ \<Rightarrow> Inr (scheduleNextPop nowMs rnd
                                     (s1\<lparr>mole_visible := False, mole_anim := None,
                                         moleState := MDown\<rparr>)))
                     else Inr s1
                else Inl TypeError)
      else Inr s)"

text \<open>The third: auto-hide if not whacked in time, with the streak reset.\<close>

definition timeoutDue :: "real \<Rightarrow> game \<Rightarrow> bool" where
  "timeoutDue nowMs s \<longleftrightarrow>
     moleState s = MUp \<and> nowMs - upSince s > UP_DURATION \<and> mole_anim s = None"

definition timeoutBlock :: "real \<Rightarrow> game \<Rightarrow> game" where
  "timeoutBlock nowMs s =
     (if timeoutDue nowMs s then
        s\<lparr>mole_anim := Some \<lparr>kind = Hide, t0 = nowMs, dur = 160, afrom = 0.16, ato = - 0.02\<rparr>,
          streak := 0\<rparr>
      else s)"

text \<open>
  \<open>updateMole(nowMs, dt)\<close>; \<open>dt\<close> is not used by the body. \<open>rndHole\<close> and \<open>rndPop\<close>
  are the draws of its two \<open>Math.random()\<close> call sites.
\<close>

definition updateMole :: "real \<Rightarrow> real \<Rightarrow> real \<Rightarrow> game \<Rightarrow> js_error + game" where
  "updateMole nowMs rndHole rndPop s =
     (case popBlock nowMs rndHole s of
        Inl e \<Rightarrow> Inl e
      | Inr s1 \<Rightarrow>
          (case animBlock nowMs rndPop s1 of
             Inl e \<Rightarrow> Inl e
           | Inr s2 \<Rightarrow> Inr (timeoutBlock nowMs s2)))"

text \<open>\<open>whackMole\<close>; \<open>now\<close> is the value of \<open>performance.now()\<close>.\<close>

definition whackMole :: "real \<Rightarrow> game \<Rightarrow> game" where
  "whackMole now s =
     (if moleState s \<noteq> MUp then s
      else s\<lparr>moleState := MDown,
             mole_anim := Some \<lparr>kind = Bonk, t0 = now, dur = 140, afrom = 0.16, ato = - 0.02\<rparr>,
             score := score s + 1,
             streak := streak s + 1\<rparr>)"

definition resetGame :: "game \<Rightarrow> game" where
  "resetGame s =
     clearGrid (s\<lparr>score := 0, streak := 0, placed := False, paused := False,
                  mole_visible := False, mole_anim := None, moleState := MDown\<rparr>)"

subsection \<open>Frame and input handlers\<close>

text \<open>
  \<open>updateReticle(frame)\<close>. \<open>pose\<close> is \<open>Some\<close> of the decomposed pose of the first
  hit-test result when the frame has one, and \<open>None\<close> when there is no frame, no result or
  no pose.
\<close>

definition updateReticle :: "(vec3 \<times> quat) option \<Rightarrow> game \<Rightarrow> game" where
  "updateReticle pose s =
     (if \<not> hitTestSource s then s\<lparr>reticle_visible := False\<rparr>
      else (case pose of
              Some (p, q) \<Rightarrow> s\<lparr>reticle_visible := True, reticle_position := p,
                               reticle_quaternion := q\<rparr>
            | None \<Rightarrow> s\<lparr>reticle_visible := False\<rparr>))"

definition onXRFrame ::
  "real \<Rightarrow> (vec3 \<times> quat) option \<Rightarrow> real \<Rightarrow> real \<Rightarrow> game \<Rightarrow> js_error + game" where
  "onXRFrame time pose rndHole rndPop s =
     (let s1 = updateReticle pose s
      in if \<not> paused s1 \<and> placed s1 then updateMole time rndHole rndPop s1 else Inr s1)"

text \<open>
  \<open>onPointerDown(e)\<close>. \<open>hit\<close> tells whether the ray through the pointer meets the mole,
  \<open>now\<close> is \<open>performance.now()\<close>, \<open>rnd\<close> the draw inside \<open>scheduleNextPop\<close>, and
  \<open>origin\<close> and \<open>fwd\<close> are the XR camera's position and its normalised forward vector,
  used by the fallback placement.
\<close>

definition onPointerDown :: "bool \<Rightarrow> real \<Rightarrow> real \<Rightarrow> vec3 \<Rightarrow> vec3 \<Rightarrow> game \<Rightarrow> game" where
  "onPointerDown hit now rnd origin fwd s =
     (if \<not> placed s then
        let s1 = (if reticle_visible s then
                    s\<lparr>gridRoot_position := reticle_position s,
                      gridRoot_quaternion := reticle_quaternion s\<rparr>
                  else
                    s\<lparr>gridRoot_position :=
                        Vec3 (vx origin + vx fwd * 1.5)
                             (vy origin + vy fwd * 1.5 - 0.8)
                             (vz origin + vz fwd * 1.5)\<rparr>)
        in scheduleNextPop now rnd ((buildGrid s1)\<lparr>placed := True\<rparr>)
      else if hit \<and> moleState s = MUp then whackMole now s
      else s)"

text \<open>The click handler of the pause button.\<close>

definition togglePause :: "game \<Rightarrow> game" where
  "togglePause s = s\<lparr>paused := \<not> paused s\<rparr>"

text \<open>The \<open>sessionstart\<close> and \<open>sessionend\<close> listeners.\<close>

definition sessionStart :: "real \<Rightarrow> real \<Rightarrow> game \<Rightarrow> game" where
  "sessionStart now rnd s = scheduleNextPop now rnd (s\<lparr>hitTestSource := True\<rparr>)"

definition sessionEnd :: "game \<Rightarrow> game" where
  "sessionEnd s =
     (clearGrid (s\<lparr>hitTestSource := False, placed := False\<rparr>))
       \<lparr>mole_visible := False, moleState := MDown\<rparr>"

subsection \<open>Events\<close>

text \<open>
  Everything the host can do to the game: an animation frame, a pointer press, the two
  buttons, and the start and end of the XR session. Each event carries the values its
  handler reads from the outside (time, hit test, ray test, random draws).
\<close>

datatype event =
    Frame real "(vec3 \<times> quat) option" real real
  | PointerDown bool real real vec3 vec3
  | PauseClick
  | ResetClick
  | SessionStart real real
  | SessionEnd

fun step :: "event \<Rightarrow> game \<Rightarrow> js_error + game" where
  "step (Frame time pose rndHole rndPop) s = onXRFrame time pose rndHole rndPop s"
| "step (PointerDown hit now rnd origin fwd) s = Inr (onPointerDown hit now rnd origin fwd s)"
| "step PauseClick s = Inr (togglePause s)"
| "step ResetClick s = Inr (resetGame s)"
| "step (SessionStart now rnd) s = Inr (sessionStart now rnd s)"
| "step SessionEnd s = Inr (sessionEnd s)"

text \<open>\<open>Math.random()\<close> returns a number in \<open>[0, 1)\<close>.\<close>

definition unitDraw :: "real \<Rightarrow> bool" where
  "unitDraw r \<longleftrightarrow> 0 \<le> r \<and> r < 1"

fun drawsOk :: "event \<Rightarrow> bool" where
  "drawsOk (Frame time pose rndHole rndPop) \<longleftrightarrow> unitDraw rndHole \<and> unitDraw rndPop"
| "drawsOk (PointerDown hit now rnd origin fwd) \<longleftrightarrow> unitDraw rnd"
| "drawsOk (SessionStart now rnd) \<longleftrightarrow> unitDraw rnd"
| "drawsOk _ \<longleftrightarrow> True"

inductive reachable :: "game \<Rightarrow> bool" where
  reach_init: "reachable init_game"
| reach_step: "reachable s \<Longrightarrow> drawsOk e \<Longrightarrow> step e s = Inr s' \<Longrightarrow> reachable s'"

text \<open>Running a list of events; the first exception ends the run.\<close>

fun run :: "event list \<Rightarrow> game \<Rightarrow> js_error + game" where
  "run [] s = Inr s"
| "run (e # es) s = (case step e s of Inl err \<Rightarrow> Inl err | Inr s' \<Rightarrow> run es s')"

subsection \<open>The four phases of the specification, read off the code's variables\<close>

text \<open>
  The source has no four-valued state: it has \<open>moleState\<close>, \<open>mole.visible\<close> and the
  running animation. A hidden mole is \<open>Down\<close>; a visible mole is \<open>Rising\<close> while its
  \<open>pop\<close> animation runs, \<open>Retreating\<close> while a \<open>hide\<close> or \<open>bonk\<close> animation runs, and
  without an animation it is \<open>Up\<close> or \<open>Down\<close> as \<open>moleState\<close> says.
\<close>

datatype phase = Down | Rising | Up | Retreating

definition phase :: "game \<Rightarrow> phase" where
  "phase s =
     (if \<not> mole_visible s then Down
      else (case mole_anim s of
              Some a \<Rightarrow> (if kind a = Pop then Rising else Retreating)
            | None \<Rightarrow> (if moleState s = MUp then Up else Down)))"

subsection \<open>Runs of frames and the branches they take\<close>

text \<open>
  A frame of a placed, running game is one call of \<open>updateMole\<close>; it is given here by its
  timestamp and its two draws. \<open>popCount\<close> and \<open>timeoutCount\<close> count the frames of a run
  at which the first and the third \<open>if\<close> of \<open>updateMole\<close> are taken.
\<close>

type_synonym frame = "real \<times> real \<times> real"

definition frameDrawsOk :: "frame \<Rightarrow> bool" where
  "frameDrawsOk f \<longleftrightarrow> unitDraw (fst (snd f)) \<and> unitDraw (snd (snd f))"

definition updateMoleF :: "frame \<Rightarrow> game \<Rightarrow> js_error + game" where
  "updateMoleF f s = updateMole (fst f) (fst (snd f)) (snd (snd f)) s"

definition timeoutFires :: "frame \<Rightarrow> game \<Rightarrow> bool" where
  "timeoutFires f s =
     (case popBlock (fst f) (fst (snd f)) s of
        Inl e \<Rightarrow> False
      | Inr s1 \<Rightarrow>
          (case animBlock (fst f) (snd (snd f)) s1 of
             Inl e \<Rightarrow> False
           | Inr s2 \<Rightarrow> timeoutDue (fst f) s2))"

fun frames :: "frame list \<Rightarrow> game \<Rightarrow> js_error + game" where
  "frames [] s = Inr s"
| "frames (f # fs) s =
     (case updateMoleF f s of Inl err \<Rightarrow> Inl err | Inr s' \<Rightarrow> frames fs s')"

fun popCount :: "frame list \<Rightarrow> game \<Rightarrow> nat" where
  "popCount [] s = 0"
| "popCount (f # fs) s =
     (case updateMoleF f s of
        Inl err \<Rightarrow> 0
      | Inr s' \<Rightarrow> (if popDue (fst f) s then 1 else 0) + popCount fs s')"

fun timeoutCount :: "frame list \<Rightarrow> game \<Rightarrow> nat" where
  "timeoutCount [] s = 0"
| "timeoutCount (f # fs) s =
     (case updateMoleF f s of
        Inl err \<Rightarrow> 0
      | Inr s' \<Rightarrow> (if timeoutFires f s then 1 else 0) + timeoutCount fs s')"

text \<open>
  Two kinds of steps of a run of events. A pop step is a frame at which \<open>onXRFrame\<close>
  calls \<open>updateMole\<close> and the first \<open>if\<close> of \<open>updateMole\<close> is taken: it starts a pop
  cycle. A hit step is a pointer press at which \<open>onPointerDown\<close> reaches
  \<open>if (hit && moleState === 'up') whackMole()\<close> with the condition true. \<open>popSteps\<close> and
  \<open>hitSteps\<close> count them along a run.
\<close>

definition popStep :: "event \<Rightarrow> game \<Rightarrow> bool" where
  "popStep e s =
     (case e of
        Frame time pose rndHole rndPop \<Rightarrow>
          \<not> paused (updateReticle pose s) \<and> placed (updateReticle pose s) \<and>
          popDue time (updateReticle pose s)
      | _ \<Rightarrow> False)"

definition hitStep :: "event \<Rightarrow> game \<Rightarrow> bool" where
  "hitStep e s =
     (case e of
        PointerDown hit now rnd origin fwd \<Rightarrow> placed s \<and> hit \<and> moleState s = MUp
      | _ \<Rightarrow> False)"

fun popSteps :: "event list \<Rightarrow> game \<Rightarrow> nat" where
  "popSteps [] s = 0"
| "popSteps (e # es) s =
     (case step e s of
        Inl err \<Rightarrow> 0
      | Inr s' \<Rightarrow> (if popStep e s then 1 else 0) + popSteps es s')"

fun hitSteps :: "event list \<Rightarrow> game \<Rightarrow> nat" where
  "hitSteps [] s = 0"
| "hitSteps (e # es) s =
     (case step e s of
        Inl err \<Rightarrow> 0
      | Inr s' \<Rightarrow> (if hitStep e s then 1 else 0) + hitSteps es s')"

subsection \<open>The slot offsets as the specification words them\<close>

text \<open>
  The local offset of slot \<open>(r, c)\<close> in the specification's formula,
  \<open>((c - (cols-1)/2) * spacing, (r - (rows-1)/2) * spacing)\<close>, to be compared with
  \<open>holePosition\<close>, which follows the source.
\<close>

definition spec_localOffset :: "nat \<Rightarrow> nat \<Rightarrow> real \<Rightarrow> nat \<Rightarrow> nat \<Rightarrow> real \<times> real" where
  "spec_localOffset rows cols spacing r c =
     ((real c - (real cols - 1) / 2) * spacing, (real r - (real rows - 1) / 2) * spacing)"

subsection \<open>A concrete game\<close>

text \<open>
  One session, used to run the code on explicit inputs. The first tap places the grid by
  the fallback (no reticle) with the camera at \<open>(0, 0.8, 1.5)\<close> looking along \<open>-z\<close>, which
  puts the grid at the origin; every draw of \<open>Math.random()\<close> is \<open>0\<close>.
\<close>

definition demo_grid :: "vec3 list" where
  "demo_grid =
     [Vec3 (- 0.38) 0 (- 0.38), Vec3 0 0 (- 0.38), Vec3 0.38 0 (- 0.38),
      Vec3 (- 0.38) 0 0,        Vec3 0 0 0,        Vec3 0.38 0 0,
      Vec3 (- 0.38) 0 0.38,     Vec3 0 0 0.38,     Vec3 0.38 0 0.38]"

definition tap_place :: event where
  "tap_place = PointerDown False 0 0 (Vec3 0 0.8 1.5) (Vec3 0 0 (- 1))"

definition tap_hit :: "real \<Rightarrow> event" where
  "tap_hit now = PointerDown True now 0 (Vec3 0 0.8 1.5) (Vec3 0 0 (- 1))"

definition frame_at :: "real \<Rightarrow> event" where
  "frame_at time = Frame time None 0 0"

text \<open>After \<open>tap_place\<close>: the grid is placed and the first pop is due at 700 ms.\<close>

definition demo_placed :: game where
  "demo_placed = init_game\<lparr>placed := True, holes := demo_grid, nextPopAt := 700\<rparr>"

text \<open>After the frame at 1000 ms: the mole has popped at hole 0 and starts to rise.\<close>

definition demo_rising :: game where
  "demo_rising = demo_placed\<lparr>
     activeHoleIndex := 0, mole_position := Vec3 (- 0.38) (- 0.02) (- 0.38),
     mole_visible := True,
     mole_anim := Some \<lparr>kind = Pop, t0 = 1000, dur = 180, afrom = - 0.02, ato = 0.16\<rparr>,
     moleState := MUp, upSince := 1000\<rparr>"

text \<open>After the frame at 1180 ms: the rise is over.\<close>

definition demo_up :: game where
  "demo_up = demo_rising\<lparr>mole_position := Vec3 (- 0.38) 0.16 (- 0.38), mole_anim := None\<rparr>"

text \<open>After a tap at 1200 ms that meets the mole.\<close>

definition demo_hit :: game where
  "demo_hit = demo_up\<lparr>
     moleState := MDown,
     mole_anim := Some \<lparr>kind = Bonk, t0 = 1200, dur = 140, afrom = 0.16, ato = - 0.02\<rparr>,
     score := 1, streak := 1\<rparr>"

text \<open>After the next frame, at 1216 ms.\<close>

definition demo_repop :: game where
  "demo_repop = demo_hit\<lparr>
     mole_position := Vec3 (- 0.38) (- 0.02) (- 0.38),
     mole_anim := Some \<lparr>kind = Pop, t0 = 1216, dur = 180, afrom = - 0.02, ato = 0.16\<rparr>,
     moleState := MUp, upSince := 1216\<rparr>"

text \<open>After the frame at 1400 ms: up again, with score and streak 1.\<close>

definition demo_up2 :: game where
  "demo_up2 = demo_repop\<lparr>mole_position := Vec3 (- 0.38) 0.16 (- 0.38), mole_anim := None\<rparr>"

text \<open>After a frame at 2200 ms with no hit: the mole retreats and the streak is lost.\<close>

definition demo_timeout :: game where
  "demo_timeout = demo_up2\<lparr>
     mole_anim := Some \<lparr>kind = Hide, t0 = 2200, dur = 160, afrom = 0.16, ato = - 0.02\<rparr>,
     streak := 0\<rparr>"

text \<open>After the frame at 2360 ms: the mole is down and the next pop is due at 3060 ms.\<close>

definition demo_down :: game where
  "demo_down = demo_timeout\<lparr>
     mole_position := Vec3 (- 0.38) (- 0.02) (- 0.38),
     mole_visible := False, mole_anim := None, moleState := MDown, nextPopAt := 3060\<rparr>"

subsection \<open>The rising mole\<close>

text \<open>
  The state the pop branch leaves behind when it fires at time \<open>tp\<close>, as far as the
  later frames read it: \<open>moleState = 'up'\<close>, the mole visible at a hole of the grid,
  \<open>upSince = tp\<close> and the \<open>pop\<close> animation \<open>{ t0: tp, dur: 180, from: -0.02, to: 0.16 }\<close>.
\<close>

definition risingSince :: "real \<Rightarrow> game \<Rightarrow> bool" where
  "risingSince tp s \<longleftrightarrow>
     moleState s = MUp \<and> mole_visible s \<and> validIndex s \<and> upSince s = tp \<and>
     mole_anim s = Some \<lparr>kind = Pop, t0 = tp, dur = 180, afrom = - 0.02, ato = 0.16\<rparr>"

subsection \<open>Frames while paused\<close>

definition isFrame :: "event \<Rightarrow> bool" where
  "isFrame e = (case e of Frame time pose rndHole rndPop \<Rightarrow> True | _ \<Rightarrow> False)"

text \<open>The state \<open>s\<close> with the three reticle fields of \<open>u\<close>.\<close>

definition withReticleOf :: "game \<Rightarrow> game \<Rightarrow> game" where
  "withReticleOf u s =
     s\<lparr>reticle_visible := reticle_visible u, reticle_position := reticle_position u,
       reticle_quaternion := reticle_quaternion u\<rparr>"

subsection \<open>States on which a frame has nothing left to do\<close>

text \<open>
  The guards of the three blocks of \<open>updateMole\<close> at time \<open>nowMs\<close>: no pop is due; the
  animation, if one runs on a visible mole, has not ended and the mole already stands where
  it puts it; no timeout is due.
\<close>

definition animSettled :: "real \<Rightarrow> game \<Rightarrow> bool" where
  "animSettled nowMs s \<longleftrightarrow>
     (if mole_visible s then
        (case mole_anim s of
           None \<Rightarrow> True
         | Some a \<Rightarrow>
             validIndex s \<and> (nowMs - t0 a) / dur a < 1 \<and>
             vy (mole_position s) =
               vy (activeHole s) + (afrom a + (ato a - afrom a) * easeOut ((nowMs - t0 a) / dur a)))
      else True)"

definition settledAt :: "real \<Rightarrow> game \<Rightarrow> bool" where
  "settledAt nowMs s \<longleftrightarrow> \<not> popDue nowMs s \<and> animSettled nowMs s \<and> \<not> timeoutDue nowMs s"

subsection \<open>Whether a tap can score\<close>

text \<open>\<open>1\<close> when \<open>moleState\<close> is \<open>'up'\<close>, the condition under which a tap is honoured.\<close>

definition armed :: "game \<Rightarrow> nat" where
  "armed s = (if moleState s = MUp then 1 else 0)"

text \<open>
  A second continuation of the concrete game after the hit at 1200 ms (\<open>demo_hit\<close>): the
  XR session starts at 1205 ms, so its listener schedules the next pop for 1905 ms; the
  frames at 1216 and 1340 ms play the \<open>bonk\<close> animation to its end, which hides the mole
  and schedules the next pop for 2040 ms; a tap at 1350 ms finds the mole down.
\<close>

definition demo_after_hit :: "event list" where
  "demo_after_hit =
     [SessionStart 1205 0, Frame 1216 None 0 0, Frame 1340 None 0 0,
      PointerDown True 1350 0 (Vec3 0 0.8 1.5) (Vec3 0 0 (- 1))]"

definition demo_bonked :: game where
  "demo_bonked = demo_hit\<lparr>
     hitTestSource := True, nextPopAt := 2040,
     mole_position := Vec3 (- 0.38) (- 0.02) (- 0.38),
     mole_visible := False, mole_anim := None\<rparr>"

text \<open>
  The continuation of \<open>demo_hit\<close> without a session start: the frame at 1216 ms pops the
  mole again, the frame at 1400 ms ends the rise, and the tap at 1410 ms hits it.
\<close>

definition demo_next_cycle :: "event list" where
  "demo_next_cycle =
     [Frame 1216 None 0 0, Frame 1400 None 0 0,
      PointerDown True 1410 0 (Vec3 0 0.8 1.5) (Vec3 0 0 (- 1))]"


section \<open>Invariant of the reachable states\<close>

definition animOk :: "anim \<Rightarrow> bool" where
  "animOk a \<longleftrightarrow>
     (kind a = Pop \<and> dur a = 180 \<and> afrom a = - 0.02 \<and> ato a = 0.16) \<or>
     (kind a = Hide \<and> dur a = 160 \<and> afrom a = 0.16 \<and> ato a = - 0.02) \<or>
     (kind a = Bonk \<and> dur a = 140 \<and> afrom a = 0.16 \<and> ato a = - 0.02)"

definition game_inv :: "game \<Rightarrow> bool" where
  "game_inv s \<longleftrightarrow>
     (placed s \<longleftrightarrow> holes s \<noteq> []) \<and>
     (mole_visible s \<longrightarrow> placed s \<and> validIndex s) \<and>
     (moleState s = MUp \<longrightarrow> mole_visible s) \<and>
     (moleState s = MUp \<and> mole_anim s = None \<longrightarrow>
        vy (mole_position s) = vy (activeHole s) + 0.16) \<and>
     (\<forall>a. mole_anim s = Some a \<longrightarrow> animOk a) \<and>
     (\<forall>a. moleState s = MUp \<and> mole_anim s = Some a \<and> kind a = Pop \<longrightarrow> t0 a = upSince s)"

section \<open>Basic facts\<close>

lemmas const_defs = GRID_def SPACING_def POP_INTERVAL_MIN_def POP_INTERVAL_MAX_def UP_DURATION_def

lemmas mole_defs = updateMole_def popBlock_def popDue_def animBlock_def timeoutBlock_def
  timeoutDue_def validIndex_def activeHole_def setY_def easeOut_def scheduleNextPop_def
  rand_def whackMole_def Let_def

lemmas handler_defs = onXRFrame_def updateReticle_def onPointerDown_def togglePause_def
  resetGame_def sessionStart_def sessionEnd_def clearGrid_def

lemmas demo_defs = tap_place_def tap_hit_def frame_at_def init_game_def demo_grid_def
  demo_placed_def demo_rising_def demo_up_def demo_hit_def demo_repop_def demo_up2_def
  demo_timeout_def demo_down_def

lemma holes_buildGrid:
  "holes (buildGrid s) =
     concat (map (\<lambda>r. map (\<lambda>c. holePosition (gridRoot_position s) (gridRoot_quaternion s) r c)
                          [0..<GRID]) [0..<GRID])"
  by (simp add: buildGrid_def clearGrid_def GRID_def upt_rec numeral_eq_Suc)

lemma buildGrid_eq:
  "buildGrid s =
     s\<lparr>holes := concat (map (\<lambda>r. map (\<lambda>c. holePosition (gridRoot_position s)
                                      (gridRoot_quaternion s) r c) [0..<GRID]) [0..<GRID])\<rparr>"
  by (simp add: buildGrid_def clearGrid_def GRID_def upt_rec numeral_eq_Suc)

lemma buildGrid_fields:
  "placed (buildGrid s) = placed s"
  "paused (buildGrid s) = paused s"
  "hitTestSource (buildGrid s) = hitTestSource s"
  "mole_visible (buildGrid s) = mole_visible s"
  "moleState (buildGrid s) = moleState s"
  "mole_anim (buildGrid s) = mole_anim s"
  "score (buildGrid s) = score s"
  "streak (buildGrid s) = streak s"
  "activeHoleIndex (buildGrid s) = activeHoleIndex s"
  "upSince (buildGrid s) = upSince s"
  "mole_position (buildGrid s) = mole_position s"
  "gridRoot_position (buildGrid s) = gridRoot_position s"
  "gridRoot_quaternion (buildGrid s) = gridRoot_quaternion s"
  by (simp_all add: buildGrid_eq)

lemma holes_buildGrid_ne: "holes (buildGrid s) \<noteq> []"
  by (simp add: holes_buildGrid GRID_def upt_rec numeral_eq_Suc)

subsection \<open>The concrete game is a run of the code\<close>

lemma step_place: "step tap_place init_game = Inr demo_placed"
  by (simp add: demo_defs handler_defs mole_defs const_defs buildGrid_def upt_rec numeral_eq_Suc
      holePosition_def applyQuaternion_def vadd_def)

lemma step_pop: "step (frame_at 1000) demo_placed = Inr demo_rising"
  by (simp add: demo_defs handler_defs mole_defs const_defs)

lemma step_rise: "step (frame_at 1180) demo_rising = Inr demo_up"
  by (simp add: demo_defs handler_defs mole_defs const_defs)

lemma step_hit: "step (tap_hit 1200) demo_up = Inr demo_hit"
  by (simp add: demo_defs handler_defs mole_defs const_defs)

lemma step_repop: "step (frame_at 1216) demo_hit = Inr demo_repop"
  by (simp add: demo_defs handler_defs mole_defs const_defs)

lemma step_rise2: "step (frame_at 1400) demo_repop = Inr demo_up2"
  by (simp add: demo_defs handler_defs mole_defs const_defs)

lemma step_timeout: "step (frame_at 2200) demo_up2 = Inr demo_timeout"
  by (simp add: demo_defs handler_defs mole_defs const_defs)

lemma step_down: "step (frame_at 2360) demo_timeout = Inr demo_down"
  by (simp add: demo_defs handler_defs mole_defs const_defs)

lemma drawsOk_demo: "drawsOk tap_place" "drawsOk (tap_hit t)" "drawsOk (frame_at t)"
  by (simp_all add: tap_place_def tap_hit_def frame_at_def unitDraw_def)

lemma reach_placed: "reachable demo_placed"
  by (rule reach_step [OF reach_init drawsOk_demo(1) step_place])

lemma reach_rising: "reachable demo_rising"
  by (rule reach_step [OF reach_placed drawsOk_demo(3) step_pop])

lemma reach_up: "reachable demo_up"
  by (rule reach_step [OF reach_rising drawsOk_demo(3) step_rise])

lemma reach_hit: "reachable demo_hit"
  by (rule reach_step [OF reach_up drawsOk_demo(2) step_hit])

lemma reach_repop: "reachable demo_repop"
  by (rule reach_step [OF reach_hit drawsOk_demo(3) step_repop])

lemma reach_up2: "reachable demo_up2"
  by (rule reach_step [OF reach_repop drawsOk_demo(3) step_rise2])

lemma reach_timeout: "reachable demo_timeout"
  by (rule reach_step [OF reach_up2 drawsOk_demo(3) step_timeout])

lemma reach_down: "reachable demo_down"
  by (rule reach_step [OF reach_timeout drawsOk_demo(3) step_down])

subsection \<open>The invariant holds in every reachable state\<close>

lemma inv_init: "game_inv init_game"
  by (simp add: game_inv_def init_game_def)

lemma inv_popBlock: "game_inv s \<Longrightarrow> popBlock now r s = Inr s' \<Longrightarrow> game_inv s'"
  by (auto simp: game_inv_def popBlock_def popDue_def Let_def validIndex_def activeHole_def
      setY_def animOk_def split: if_splits)

lemma inv_animBlock: "game_inv s \<Longrightarrow> animBlock now r s = Inr s' \<Longrightarrow> game_inv s'"
proof (cases "mole_visible s")
  case False
  assume "game_inv s" "animBlock now r s = Inr s'"
  with False show ?thesis by (simp add: animBlock_def)
next
  case vis: True
  assume inv: "game_inv s" and eq: "animBlock now r s = Inr s'"
  show ?thesis
  proof (cases "mole_anim s")
    case None
    with vis inv eq show ?thesis by (simp add: animBlock_def)
  next
    case (Some a)
    have ok: "animOk a" using inv Some by (simp add: game_inv_def)
    have vi: "validIndex s" using inv vis by (simp add: game_inv_def)
    define t where "t = min 1 ((now - t0 a) / dur a)"
    define s1 where "s1 = s\<lparr>mole_position :=
      setY (vy (activeHole s) + (afrom a + (ato a - afrom a) * easeOut t)) (mole_position s)\<rparr>"
    show ?thesis
    proof (cases "t \<ge> 1")
      case False
      then have "s' = s1"
        using eq vis Some vi by (simp add: animBlock_def Let_def t_def s1_def)
      then show ?thesis
        using inv Some by (auto simp: game_inv_def s1_def validIndex_def activeHole_def)
    next
      case True
      then have t1: "t = 1" by (simp add: t_def)
      show ?thesis
      proof (cases "kind a = Pop")
        case True
        then have "s' = s1\<lparr>mole_anim := None\<rparr>"
          using eq vis Some vi t1 by (simp add: animBlock_def Let_def t_def[symmetric] s1_def)
        then show ?thesis
          using inv Some ok True t1
          by (auto simp: game_inv_def s1_def validIndex_def activeHole_def animOk_def
              easeOut_def setY_def)
      next
        case False
        then have "s' = scheduleNextPop now r
                     (s1\<lparr>mole_visible := False, mole_anim := None, moleState := MDown\<rparr>)"
          using eq vis Some vi t1
          by (cases "kind a") (simp_all add: animBlock_def Let_def t_def[symmetric] s1_def)
        then show ?thesis
          using inv
          by (auto simp: game_inv_def s1_def validIndex_def activeHole_def scheduleNextPop_def)
      qed
    qed
  qed
qed

lemma inv_timeoutBlock: "game_inv s \<Longrightarrow> game_inv (timeoutBlock now s)"
  by (auto simp: game_inv_def timeoutBlock_def timeoutDue_def validIndex_def activeHole_def
      animOk_def)

lemma inv_updateMole: "game_inv s \<Longrightarrow> updateMole now r1 r2 s = Inr s' \<Longrightarrow> game_inv s'"
  by (auto simp: updateMole_def split: sum.splits dest: inv_popBlock inv_animBlock
      intro: inv_timeoutBlock)

lemma inv_updateReticle: "game_inv s \<Longrightarrow> game_inv (updateReticle p s)"
  by (auto simp: game_inv_def updateReticle_def validIndex_def activeHole_def
      split: option.splits)

lemma inv_onXRFrame: "game_inv s \<Longrightarrow> onXRFrame t p r1 r2 s = Inr s' \<Longrightarrow> game_inv s'"
  using inv_updateMole [OF inv_updateReticle, of s t r1 r2 p s']
  by (auto simp: onXRFrame_def Let_def inv_updateReticle split: if_splits)

lemma inv_whackMole: "game_inv s \<Longrightarrow> game_inv (whackMole now s)"
  by (auto simp: game_inv_def whackMole_def validIndex_def activeHole_def animOk_def)

lemma inv_onPointerDown: "game_inv s \<Longrightarrow> game_inv (onPointerDown h now r orig fwd s)"
  by (auto simp: onPointerDown_def Let_def inv_whackMole)
     (auto simp: game_inv_def scheduleNextPop_def buildGrid_fields holes_buildGrid_ne)

lemma inv_buttons:
  "game_inv s \<Longrightarrow> game_inv (togglePause s)"
  "game_inv s \<Longrightarrow> game_inv (resetGame s)"
  "game_inv s \<Longrightarrow> game_inv (sessionStart now r s)"
  "game_inv s \<Longrightarrow> game_inv (sessionEnd s)"
  by (auto simp: game_inv_def togglePause_def resetGame_def sessionStart_def sessionEnd_def
      clearGrid_def scheduleNextPop_def validIndex_def activeHole_def)

lemma inv_step: "game_inv s \<Longrightarrow> step e s = Inr s' \<Longrightarrow> game_inv s'"
  by (cases e) (auto dest: inv_onXRFrame simp: inv_onPointerDown inv_buttons)

lemma reachable_inv: "reachable s \<Longrightarrow> game_inv s"
  by (induction rule: reachable.induct) (auto intro: inv_init inv_step)

lemma up_placed:
  "reachable s \<Longrightarrow> moleState s = MUp \<Longrightarrow> placed s \<and> mole_visible s \<and> validIndex s"
  using reachable_inv [of s] by (auto simp: game_inv_def)

lemma tap_down_ignored:
  "moleState s = MDown \<Longrightarrow>
   score (onPointerDown hit now rnd origin fwd s) = score s \<and>
   streak (onPointerDown hit now rnd origin fwd s) = streak s \<and>
   moleState (onPointerDown hit now rnd origin fwd s) = MDown"
  by (simp add: onPointerDown_def scheduleNextPop_def buildGrid_fields Let_def)

subsection \<open>Frames of a rising mole\<close>

lemma floor_draw:
  assumes "unitDraw r" and "0 < n"
  shows "0 \<le> \<lfloor>r * real n\<rfloor> \<and> \<lfloor>r * real n\<rfloor> < int n"
proof -
  have "0 \<le> r * real n" using assms by (simp add: unitDraw_def)
  moreover have "r * real n < real n" using assms by (simp add: unitDraw_def)
  ultimately show ?thesis by (simp add: floor_less_iff)
qed

lemma pop_rising:
  assumes "popDue tp s" and "unitDraw rh"
  shows "\<exists>s0. updateMole tp rh rp s = Inr s0 \<and> risingSince tp s0"
proof -
  have n: "0 < length (holes s)" using assms(1) by (simp add: popDue_def)
  have fl: "0 \<le> \<lfloor>rh * real (length (holes s))\<rfloor> \<and> \<lfloor>rh * real (length (holes s))\<rfloor> < int (length (holes s))"
    using floor_draw [OF assms(2) n] .
  show ?thesis using assms(1) fl
    by (simp add: updateMole_def popBlock_def animBlock_def timeoutBlock_def timeoutDue_def
        validIndex_def Let_def risingSince_def activeHole_def setY_def easeOut_def)
qed

lemma rising_anim:
  assumes "risingSince tp s"
  shows "\<exists>s2. animBlock now rp s = Inr s2 \<and> moleState s2 = MUp \<and> upSince s2 = tp \<and>
     (now - tp < 180 \<longrightarrow> risingSince tp s2) \<and>
     (phase s2 = Up \<longleftrightarrow> now - tp \<ge> 180) \<and> (phase s2 = Rising \<longleftrightarrow> now - tp < 180)"
proof (cases "now - tp < 180")
  case True
  then have "min 1 ((now - tp) / 180) < 1" by simp
  then show ?thesis using assms True
    by (simp add: animBlock_def Let_def risingSince_def phase_def validIndex_def)
next
  case False
  then have "min 1 ((now - tp) / 180) = 1" by simp
  then show ?thesis using assms False
    by (simp add: animBlock_def Let_def risingSince_def phase_def validIndex_def)
qed

lemma rising_update:
  assumes "risingSince tp s"
  shows "\<exists>s3. updateMole now rh rp s = Inr s3 \<and>
     (now - tp < 180 \<longrightarrow> risingSince tp s3) \<and>
     (phase s3 = Rising \<longleftrightarrow> now - tp < 180) \<and>
     (phase s3 = Up \<longleftrightarrow> 180 \<le> now - tp \<and> now - tp \<le> UP_DURATION)"
proof -
  have p: "popBlock now rh s = Inr s" using assms by (simp add: popBlock_def popDue_def risingSince_def)
  obtain s2 where s2: "animBlock now rp s = Inr s2" "moleState s2 = MUp" "upSince s2 = tp"
     "now - tp < 180 \<longrightarrow> risingSince tp s2"
     "phase s2 = Up \<longleftrightarrow> now - tp \<ge> 180" "phase s2 = Rising \<longleftrightarrow> now - tp < 180"
    using rising_anim [OF assms, of now rp] by blast
  have u: "updateMole now rh rp s = Inr (timeoutBlock now s2)" by (simp add: updateMole_def p s2(1))
  show ?thesis
  proof (cases "now - tp < 180")
    case True
    then have r: "risingSince tp s2" using s2(4) by simp
    then have "timeoutBlock now s2 = s2" by (simp add: timeoutBlock_def timeoutDue_def risingSince_def)
    then show ?thesis using u True r s2 by (simp add: UP_DURATION_def)
  next
    case False
    then have up: "phase s2 = Up" using s2(5) by simp
    then have vis: "mole_visible s2 \<and> mole_anim s2 = None"
      by (auto simp: phase_def split: if_splits option.splits)
    show ?thesis
    proof (cases "now - tp > UP_DURATION")
      case True
      then have "phase (timeoutBlock now s2) = Retreating"
        using vis s2(2,3) by (simp add: timeoutBlock_def timeoutDue_def phase_def)
      then show ?thesis using u False True by simp
    next
      case F2: False
      then have "timeoutBlock now s2 = s2" using s2(3) by (simp add: timeoutBlock_def timeoutDue_def)
      then show ?thesis using u False F2 up by simp
    qed
  qed
qed

lemma rising_frames:
  "risingSince tp s \<Longrightarrow> \<forall>f\<in>set fs. fst f - tp < 180 \<Longrightarrow>
   \<exists>s1. frames fs s = Inr s1 \<and> risingSince tp s1"
proof (induction fs arbitrary: s)
  case Nil
  then show ?case by simp
next
  case (Cons f fs)
  have "fst f - tp < 180" using Cons.prems(2) by simp
  then obtain s3 where "updateMoleF f s = Inr s3" "risingSince tp s3"
    using rising_update [OF Cons.prems(1), of "fst f" "fst (snd f)" "snd (snd f)"]
    unfolding updateMoleF_def by blast
  then show ?case using Cons.IH [of s3] Cons.prems(2) by simp
qed

lemma rising_phase: "risingSince tp s \<Longrightarrow> phase s = Rising"
  by (simp add: risingSince_def phase_def)

subsection \<open>Frames of a paused game\<close>

lemma paused_frame: "paused s \<Longrightarrow> onXRFrame t pose rh rp s = Inr (updateReticle pose s)"
  by (simp add: onXRFrame_def updateReticle_def Let_def split: option.splits)

lemma updateReticle_withReticleOf:
  "withReticleOf (updateReticle pose s) s = updateReticle pose s"
  by (simp add: withReticleOf_def updateReticle_def split: option.splits prod.splits)

lemma withReticleOf_updateReticle:
  "s1 = withReticleOf s1 s \<Longrightarrow> updateReticle pose s1 = withReticleOf (updateReticle pose s1) s"
  by (cases s1, cases s) (auto simp add: withReticleOf_def updateReticle_def split: option.splits prod.splits)

lemma paused_frames:
  "paused s1 \<Longrightarrow> s1 = withReticleOf s1 s \<Longrightarrow> list_all isFrame fs \<Longrightarrow>
   \<exists>s2. run fs s1 = Inr s2 \<and> paused s2 \<and> s2 = withReticleOf s2 s"
proof (induction fs arbitrary: s1)
  case Nil
  then show ?case by simp
next
  case (Cons e fs)
  from Cons.prems(3) obtain t pose rh rp where e: "e = Frame t pose rh rp"
    by (cases e) (simp_all add: isFrame_def)
  have st: "step e s1 = Inr (updateReticle pose s1)"
    using Cons.prems(1) by (simp add: e paused_frame)
  have p: "paused (updateReticle pose s1)"
    using Cons.prems(1) by (simp add: updateReticle_def split: option.splits)
  show ?case
    using Cons.IH [OF p withReticleOf_updateReticle [OF Cons.prems(2)]] Cons.prems(3) st
    by simp
qed

lemma up_frame:
  assumes "game_inv s" and "phase s = Up" and "\<not> paused s"
  shows "\<exists>s2. onXRFrame now pose rh rp s = Inr s2 \<and>
     (if now - upSince s > UP_DURATION then streak s2 = 0 \<and> phase s2 = Retreating
      else streak s2 = streak s \<and> phase s2 = Up)"
proof -
  have f: "mole_visible s \<and> mole_anim s = None \<and> moleState s = MUp"
    using assms(2) by (auto simp: phase_def split: if_splits option.splits)
  then have pl: "placed s" using assms(1) by (auto simp: game_inv_def)
  define s1 where "s1 = updateReticle pose s"
  have s1: "mole_visible s1 \<and> mole_anim s1 = None \<and> moleState s1 = MUp \<and> placed s1 \<and>
            \<not> paused s1 \<and> upSince s1 = upSince s \<and> streak s1 = streak s"
    using f pl assms(3) by (simp add: s1_def updateReticle_def split: option.splits)
  have "onXRFrame now pose rh rp s = Inr (timeoutBlock now s1)"
    using s1 by (simp add: onXRFrame_def s1_def[symmetric] Let_def updateMole_def popBlock_def popDue_def
        animBlock_def)
  then show ?thesis using s1
    by (simp add: timeoutBlock_def timeoutDue_def phase_def)
qed

subsection \<open>A frame settles the state\<close>

lemma setY_same: "vy v = y \<Longrightarrow> setY y v = v"
  by (cases v) (simp add: setY_def)

lemma animSettled_fix:
  assumes "animSettled now s"
  shows "animBlock now rp s = Inr s"
proof (cases "mole_visible s")
  case False
  then show ?thesis by (simp add: animBlock_def)
next
  case True
  show ?thesis
  proof (cases "mole_anim s")
    case None
    then show ?thesis by (simp add: animBlock_def)
  next
    case (Some a)
    then have c: "validIndex s" "(now - t0 a) / dur a < 1"
      "vy (mole_position s) =
         vy (activeHole s) + (afrom a + (ato a - afrom a) * easeOut ((now - t0 a) / dur a))"
      using assms True by (simp_all add: animSettled_def)
    have m: "min 1 ((now - t0 a) / dur a) = (now - t0 a) / dur a" using c(2) by simp
    show ?thesis using True Some c(1,2) setY_same [OF c(3)]
      by (simp add: animBlock_def Let_def m)
  qed
qed

lemma settled_fix:
  assumes "settledAt now s"
  shows "updateMole now rh rp s = Inr s"
proof -
  have p: "popBlock now rh s = Inr s" using assms by (simp add: settledAt_def popBlock_def)
  have a: "animBlock now rp s = Inr s" using assms by (simp add: settledAt_def animSettled_fix)
  have t: "timeoutBlock now s = s" using assms by (simp add: settledAt_def timeoutBlock_def)
  show ?thesis by (simp add: updateMole_def p a t)
qed

lemma popBlock_total:
  assumes "unitDraw rh"
  shows "\<exists>s1. popBlock now rh s = Inr s1 \<and> \<not> popDue now s1"
proof (cases "popDue now s")
  case False
  then show ?thesis by (simp add: popBlock_def)
next
  case True
  then have n: "0 < length (holes s)" by (simp add: popDue_def)
  show ?thesis using True floor_draw [OF assms n]
    by (simp add: popBlock_def validIndex_def Let_def popDue_def)
qed

lemma animBlock_post:
  assumes "game_inv s" and "\<not> popDue now s" and "0 \<le> rp"
  shows "\<exists>s2. animBlock now rp s = Inr s2 \<and> \<not> popDue now s2 \<and> animSettled now s2"
proof (cases "mole_visible s")
  case False
  then show ?thesis using assms(2) by (simp add: animBlock_def animSettled_def)
next
  case vis: True
  then have vi: "validIndex s" using assms(1) by (simp add: game_inv_def)
  show ?thesis
  proof (cases "mole_anim s")
    case None
    then show ?thesis using assms(2) vis by (simp add: animBlock_def animSettled_def)
  next
    case (Some a)
    define t where "t = min 1 ((now - t0 a) / dur a)"
    define s1 where "s1 = s\<lparr>mole_position :=
      setY (vy (activeHole s) + (afrom a + (ato a - afrom a) * easeOut t)) (mole_position s)\<rparr>"
    show ?thesis
    proof (cases "t \<ge> 1")
      case False
      then have lt: "(now - t0 a) / dur a < 1" and te: "t = (now - t0 a) / dur a"
        by (simp_all add: t_def min_def split: if_splits)
      have "animBlock now rp s = Inr s1"
        using vis Some vi False by (simp add: animBlock_def Let_def t_def s1_def)
      moreover have "\<not> popDue now s1" using assms(2) by (simp add: popDue_def s1_def)
      moreover have "animSettled now s1"
        using vis Some vi lt
        by (simp add: animSettled_def s1_def validIndex_def activeHole_def setY_def te)
      ultimately show ?thesis by blast
    next
      case True
      show ?thesis
      proof (cases "kind a = Pop")
        case P: True
        have "animBlock now rp s = Inr (s1\<lparr>mole_anim := None\<rparr>)"
          using vis Some vi True P by (simp add: animBlock_def Let_def t_def s1_def)
        moreover have "\<not> popDue now (s1\<lparr>mole_anim := None\<rparr>)"
          using assms(2) by (simp add: popDue_def s1_def)
        moreover have "animSettled now (s1\<lparr>mole_anim := None\<rparr>)"
          by (simp add: animSettled_def)
        ultimately show ?thesis by blast
      next
        case NP: False
        define s3 where "s3 = scheduleNextPop now rp
                     (s1\<lparr>mole_visible := False, mole_anim := None, moleState := MDown\<rparr>)"
        have "animBlock now rp s = Inr s3"
          using vis Some vi True NP
          by (cases "kind a") (simp_all add: animBlock_def Let_def t_def s1_def s3_def)
        moreover have "now < nextPopAt s3"
          using assms(3)
          by (simp add: s3_def scheduleNextPop_def rand_def POP_INTERVAL_MIN_def POP_INTERVAL_MAX_def)
        then have "\<not> popDue now s3" by (simp add: popDue_def)
        moreover have "animSettled now s3"
          by (simp add: animSettled_def s3_def scheduleNextPop_def)
        ultimately show ?thesis by blast
      qed
    qed
  qed
qed

lemma timeoutBlock_post:
  assumes "game_inv s" and "\<not> popDue now s" and "animSettled now s"
  shows "settledAt now (timeoutBlock now s)"
proof (cases "timeoutDue now s")
  case False
  then show ?thesis using assms by (simp add: timeoutBlock_def settledAt_def)
next
  case True
  then have u: "moleState s = MUp" "mole_anim s = None" by (simp_all add: timeoutDue_def)
  then have v: "mole_visible s" "validIndex s" "vy (mole_position s) = vy (activeHole s) + 0.16"
    using assms(1) by (simp_all add: game_inv_def)
  show ?thesis using True u v
    by (simp add: timeoutBlock_def settledAt_def popDue_def timeoutDue_def animSettled_def
        validIndex_def activeHole_def easeOut_def)
qed

lemma updateMole_settles:
  assumes "game_inv s" and "unitDraw rh" and "unitDraw rp"
  shows "\<exists>s'. updateMole now rh rp s = Inr s' \<and> settledAt now s'"
proof -
  obtain s1 where s1: "popBlock now rh s = Inr s1" "\<not> popDue now s1"
    using popBlock_total [OF assms(2)] by blast
  have i1: "game_inv s1" using inv_popBlock [OF assms(1) s1(1)] .
  have "0 \<le> rp" using assms(3) by (simp add: unitDraw_def)
  then obtain s2 where s2: "animBlock now rp s1 = Inr s2" "\<not> popDue now s2" "animSettled now s2"
    using animBlock_post [OF i1 s1(2)] by blast
  have i2: "game_inv s2" using inv_animBlock [OF i1 s2(1)] .
  show ?thesis
    using timeoutBlock_post [OF i2 s2(2,3)] by (simp add: updateMole_def s1(1) s2(1))
qed

subsection \<open>Frames of one pop cycle\<close>

lemma animBlock_props:
  assumes "game_inv s"
  shows "\<exists>s2. animBlock now rp s = Inr s2 \<and> score s2 = score s \<and> streak s2 = streak s \<and>
     upSince s2 = upSince s \<and>
     (case (if mole_visible s then mole_anim s else None) of
        None \<Rightarrow> s2 = s
      | Some a \<Rightarrow>
          if (now - t0 a) / dur a < 1 then mole_anim s2 = Some a \<and> moleState s2 = moleState s
          else if kind a = Pop then mole_anim s2 = None \<and> moleState s2 = moleState s
          else mole_anim s2 = None \<and> moleState s2 = MDown)"
proof (cases "mole_visible s")
  case False
  then show ?thesis by (simp add: animBlock_def)
next
  case vis: True
  then have vi: "validIndex s" using assms by (simp add: game_inv_def)
  show ?thesis
  proof (cases "mole_anim s")
    case None
    then show ?thesis using vis by (simp add: animBlock_def)
  next
    case (Some a)
    show ?thesis
    proof (cases "(now - t0 a) / dur a < 1")
      case True
      then have "\<not> 1 \<le> min 1 ((now - t0 a) / dur a)" by simp
      then show ?thesis using vis vi Some True by (simp add: animBlock_def Let_def)
    next
      case False
      then have "1 \<le> min 1 ((now - t0 a) / dur a)" by simp
      then show ?thesis using vis vi Some False
        by (cases "kind a") (simp_all add: animBlock_def Let_def scheduleNextPop_def)
    qed
  qed
qed

lemma after_timeout_step:
  assumes "game_inv s" and "moleState s = MDown \<or> (\<exists>a. mole_anim s = Some a \<and> kind a \<noteq> Pop)"
    and "\<not> popDue now s"
  shows "\<exists>s'. updateMole now rh rp s = Inr s' \<and> game_inv s' \<and>
     (moleState s' = MDown \<or> (\<exists>a. mole_anim s' = Some a \<and> kind a \<noteq> Pop)) \<and>
     score s' = score s \<and> streak s' = streak s \<and> \<not> timeoutFires (now, rh, rp) s"
proof -
  have p: "popBlock now rh s = Inr s" using assms(3) by (simp add: popBlock_def)
  obtain s2 where s2: "animBlock now rp s = Inr s2" "score s2 = score s" "streak s2 = streak s"
     "case (if mole_visible s then mole_anim s else None) of
        None \<Rightarrow> s2 = s
      | Some a \<Rightarrow>
          if (now - t0 a) / dur a < 1 then mole_anim s2 = Some a \<and> moleState s2 = moleState s
          else if kind a = Pop then mole_anim s2 = None \<and> moleState s2 = moleState s
          else mole_anim s2 = None \<and> moleState s2 = MDown"
    using animBlock_props [OF assms(1), of now rp] by blast
  have vis: "moleState s = MUp \<Longrightarrow> mole_visible s" using assms(1) by (simp add: game_inv_def)
  have b: "moleState s2 = MDown \<or> (\<exists>a. mole_anim s2 = Some a \<and> kind a \<noteq> Pop)"
    using assms(2) s2(4) vis by (cases "moleState s") (auto split: option.splits if_splits)
  then have nd: "\<not> timeoutDue now s2" by (auto simp: timeoutDue_def)
  then have t: "timeoutBlock now s2 = s2" by (simp add: timeoutBlock_def)
  have u: "updateMole now rh rp s = Inr s2" by (simp add: updateMole_def p s2(1) t)
  have "game_inv s2" using inv_updateMole [OF assms(1) u] .
  moreover have "\<not> timeoutFires (now, rh, rp) s" using nd by (simp add: timeoutFires_def p s2(1))
  ultimately show ?thesis using u b s2(2,3) by blast
qed

lemma after_timeout_frames:
  "game_inv s \<Longrightarrow> moleState s = MDown \<or> (\<exists>a. mole_anim s = Some a \<and> kind a \<noteq> Pop) \<Longrightarrow>
   list_all frameDrawsOk fs \<Longrightarrow> popCount fs s = 0 \<Longrightarrow>
   \<exists>s'. frames fs s = Inr s' \<and> score s' = score s \<and> streak s' = streak s \<and>
        timeoutCount fs s = 0"
proof (induction fs arbitrary: s)
  case Nil
  then show ?case by simp
next
  case (Cons f fs)
  have d0: "frameDrawsOk f" "list_all frameDrawsOk fs" using Cons.prems(3) by simp_all
  have d: "unitDraw (fst (snd f))" "unitDraw (snd (snd f))" "list_all frameDrawsOk fs"
    using d0 by (simp_all add: frameDrawsOk_def)
  obtain s0 where s0: "updateMoleF f s = Inr s0"
    using updateMole_settles [OF Cons.prems(1) d(1,2), of "fst f"]
    unfolding updateMoleF_def by blast
  have np: "\<not> popDue (fst f) s"
    using Cons.prems(4) s0 by (simp split: if_splits)
  obtain s1 where s1: "updateMoleF f s = Inr s1" "game_inv s1"
     "moleState s1 = MDown \<or> (\<exists>a. mole_anim s1 = Some a \<and> kind a \<noteq> Pop)"
     "score s1 = score s" "streak s1 = streak s" "\<not> timeoutFires f s"
    using after_timeout_step [OF Cons.prems(1,2) np, of "fst (snd f)" "snd (snd f)"]
    unfolding updateMoleF_def by auto
  have "popCount fs s1 = 0" using Cons.prems(4) s1(1) by (simp split: if_splits)
  from Cons.IH [OF s1(2,3) d(3) this] show ?case using s1 by auto
qed

lemma before_timeout_step:
  assumes "game_inv s" and "moleState s = MUp" and "phase s = Rising \<or> phase s = Up"
  shows "\<exists>s'. updateMole now rh rp s = Inr s' \<and> game_inv s' \<and> score s' = score s \<and>
     upSince s' = upSince s \<and> \<not> popDue now s \<and>
     (if now - upSince s > UP_DURATION
      then timeoutFires (now, rh, rp) s \<and> streak s' = 0 \<and>
           (\<exists>a. mole_anim s' = Some a \<and> kind a \<noteq> Pop)
      else \<not> timeoutFires (now, rh, rp) s \<and> streak s' = streak s \<and>
           moleState s' = MUp \<and> (phase s' = Rising \<or> phase s' = Up))"
proof -
  have np: "\<not> popDue now s" using assms(2) by (simp add: popDue_def)
  then have p: "popBlock now rh s = Inr s" by (simp add: popBlock_def)
  have vis: "mole_visible s" using assms(1,2) by (simp add: game_inv_def)
  have an: "\<And>a. mole_anim s = Some a \<Longrightarrow> kind a = Pop \<and> t0 a = upSince s \<and> dur a = 180"
    using assms vis by (auto simp: game_inv_def phase_def animOk_def split: if_splits)
  obtain s2 where s2: "animBlock now rp s = Inr s2" "score s2 = score s" "streak s2 = streak s"
     "upSince s2 = upSince s"
     "case (if mole_visible s then mole_anim s else None) of
        None \<Rightarrow> s2 = s
      | Some a \<Rightarrow>
          if (now - t0 a) / dur a < 1 then mole_anim s2 = Some a \<and> moleState s2 = moleState s
          else if kind a = Pop then mole_anim s2 = None \<and> moleState s2 = moleState s
          else mole_anim s2 = None \<and> moleState s2 = MDown"
    using animBlock_props [OF assms(1), of now rp] by blast
  have i2: "game_inv s2" using inv_animBlock [OF assms(1) s2(1)] .
  have m2: "moleState s2 = MUp"
    using s2(5) vis assms(2) an by (auto split: option.splits if_splits)
  then have v2: "mole_visible s2" using i2 by (simp add: game_inv_def)
  have u: "updateMole now rh rp s = Inr (timeoutBlock now s2)"
    by (simp add: updateMole_def p s2(1))
  have i3: "game_inv (timeoutBlock now s2)" using inv_timeoutBlock [OF i2] .
  have tf: "timeoutFires (now, rh, rp) s = timeoutDue now s2"
    by (simp add: timeoutFires_def p s2(1))
  show ?thesis
  proof (cases "now - upSince s > UP_DURATION")
    case True
    have "mole_anim s2 = None"
    proof (cases "mole_anim s")
      case None
      then show ?thesis using s2(5) vis by simp
    next
      case (Some a)
      then have "\<not> (now - t0 a) / dur a < 1" using an [OF Some] True by (simp add: UP_DURATION_def)
      then show ?thesis using s2(5) vis Some an [OF Some] by simp
    qed
    then have due: "timeoutDue now s2" using m2 True s2(4) by (simp add: timeoutDue_def)
    then show ?thesis using u i3 np tf True s2(2,4)
      by (simp add: timeoutBlock_def)
  next
    case False
    then have nd: "\<not> timeoutDue now s2" using s2(4) by (simp add: timeoutDue_def)
    then have t: "timeoutBlock now s2 = s2" by (simp add: timeoutBlock_def)
    have "\<And>a. mole_anim s2 = Some a \<Longrightarrow> kind a = Pop"
      using s2(5) vis an by (auto split: option.splits if_splits)
    then have "phase s2 = Rising \<or> phase s2 = Up"
      using v2 m2 by (auto simp: phase_def split: option.splits)
    then show ?thesis using u i2 np tf False nd t s2(2,3,4) m2 by simp
  qed
qed

lemma before_timeout_frames:
  "game_inv s \<Longrightarrow> moleState s = MUp \<Longrightarrow> phase s = Rising \<or> phase s = Up \<Longrightarrow>
   list_all frameDrawsOk fs \<Longrightarrow> popCount fs s = 0 \<Longrightarrow>
   \<exists>s'. frames fs s = Inr s' \<and> score s' = score s \<and>
     timeoutCount fs s = (if \<exists>f\<in>set fs. fst f - upSince s > UP_DURATION then 1 else 0) \<and>
     streak s' = (if \<exists>f\<in>set fs. fst f - upSince s > UP_DURATION then 0 else streak s)"
proof (induction fs arbitrary: s)
  case Nil
  then show ?case by simp
next
  case (Cons f fs)
  have d: "list_all frameDrawsOk fs" using Cons.prems(4) by simp
  obtain s1 where s1: "updateMoleF f s = Inr s1" "game_inv s1" "score s1 = score s"
     "upSince s1 = upSince s"
     "if fst f - upSince s > UP_DURATION
      then timeoutFires f s \<and> streak s1 = 0 \<and>
           (\<exists>a. mole_anim s1 = Some a \<and> kind a \<noteq> Pop)
      else \<not> timeoutFires f s \<and> streak s1 = streak s \<and>
           moleState s1 = MUp \<and> (phase s1 = Rising \<or> phase s1 = Up)"
    using before_timeout_step [OF Cons.prems(1,2,3), of "fst f" "fst (snd f)" "snd (snd f)"]
    unfolding updateMoleF_def prod.collapse by blast
  have pc: "popCount fs s1 = 0" using Cons.prems(5) s1(1) by (simp split: if_splits)
  show ?case
  proof (cases "fst f - upSince s > UP_DURATION")
    case True
    then have b: "moleState s1 = MDown \<or> (\<exists>a. mole_anim s1 = Some a \<and> kind a \<noteq> Pop)"
      and f1: "timeoutFires f s" and z: "streak s1 = 0"
      using s1(5) by simp_all
    obtain s' where "frames fs s1 = Inr s'" "score s' = score s1" "streak s' = streak s1"
        "timeoutCount fs s1 = 0"
      using after_timeout_frames [OF s1(2) b d pc] by blast
    then show ?thesis using True s1(1,3) f1 z by auto
  next
    case False
    then have a: "moleState s1 = MUp" "phase s1 = Rising \<or> phase s1 = Up"
      and f0: "\<not> timeoutFires f s" and st: "streak s1 = streak s"
      using s1(5) by simp_all
    from Cons.IH [OF s1(2) a d pc] obtain s' where s': "frames fs s1 = Inr s'"
      "score s' = score s1"
      "timeoutCount fs s1 = (if \<exists>f\<in>set fs. fst f - upSince s1 > UP_DURATION then 1 else 0)"
      "streak s' = (if \<exists>f\<in>set fs. fst f - upSince s1 > UP_DURATION then 0 else streak s1)"
      by blast
    show ?thesis using False s1(1,3,4) f0 st s' by auto
  qed
qed

subsection \<open>No event throws in a reachable state\<close>

lemma step_total:
  assumes "reachable s" and "drawsOk e"
  shows "\<exists>s'. step e s = Inr s'"
proof (cases e)
  case (Frame time pose rndHole rndPop)
  have i: "game_inv (updateReticle pose s)"
    using inv_updateReticle [OF reachable_inv [OF assms(1)]] .
  have d: "unitDraw rndHole" "unitDraw rndPop" using assms(2) Frame by simp_all
  show ?thesis
    using updateMole_settles [OF i d, of time] by (auto simp: Frame onXRFrame_def Let_def)
qed simp_all

subsection \<open>The two ways down\<close>

text \<open>
  After a hit the mole is \<open>'down'\<close> at once while \<open>nextPopAt\<close> keeps its old value; if
  that time has passed, the next frame pops the mole again. The end of a \<open>hide\<close> animation
  schedules the next pop between \<open>POP_INTERVAL_MIN\<close> and \<open>POP_INTERVAL_MAX\<close> ahead.
\<close>

lemma hit_then_frame_pops:
  assumes "moleState s = MUp" and "holes s \<noteq> []" and "nextPopAt s \<le> now" and "unitDraw rh"
  shows "\<exists>s'. updateMole now rh rp (whackMole tw s) = Inr s' \<and> risingSince now s' \<and>
              nextPopAt s' = nextPopAt s"
proof -
  have p: "popDue now (whackMole tw s)"
    using assms(1-3) by (simp add: popDue_def whackMole_def)
  obtain s1 where s1: "popBlock now rh (whackMole tw s) = Inr s1"
       "nextPopAt s1 = nextPopAt s" "risingSince now s1"
       "vy (mole_position s1) = vy (activeHole s1) + (- 0.02)"
    using p floor_draw [OF assms(4), of "length (holes s)"] assms(1,2)
    by (simp add: popBlock_def validIndex_def Let_def whackMole_def risingSince_def
        activeHole_def setY_def)
  have "animSettled now s1"
    using s1(3,4) by (simp add: animSettled_def risingSince_def easeOut_def)
  then have a: "animBlock now rp s1 = Inr s1" by (rule animSettled_fix)
  have t: "timeoutBlock now s1 = s1"
    using s1(3) by (simp add: timeoutBlock_def timeoutDue_def risingSince_def)
  show ?thesis using s1 by (simp add: updateMole_def a t)
qed

lemma miss_path_schedules:
  assumes "game_inv s" and "mole_visible s" and "mole_anim s = Some a" and "kind a = Hide"
    and "(now - t0 a) / dur a \<ge> 1" and "unitDraw rp"
  shows "\<exists>s'. animBlock now rp s = Inr s' \<and> moleState s' = MDown \<and>
              now + POP_INTERVAL_MIN \<le> nextPopAt s' \<and> nextPopAt s' < now + POP_INTERVAL_MAX"
proof -
  have vi: "validIndex s" using assms(1,2) by (simp add: game_inv_def)
  have m: "min 1 ((now - t0 a) / dur a) = 1" using assms(5) by simp
  show ?thesis
    using assms(2,3,4,6) vi
    by (simp add: animBlock_def Let_def m scheduleNextPop_def rand_def unitDraw_def
        POP_INTERVAL_MIN_def POP_INTERVAL_MAX_def)
qed

subsection \<open>Only the pop branch re-arms the mole\<close>

lemma tap_score:
  "score (onPointerDown hit now rnd origin fwd s) =
     score s + (if hitStep (PointerDown hit now rnd origin fwd) s then 1 else 0) \<and>
   streak (onPointerDown hit now rnd origin fwd s) =
     streak s + (if hitStep (PointerDown hit now rnd origin fwd) s then 1 else 0)"
  by (simp add: hitStep_def onPointerDown_def whackMole_def scheduleNextPop_def
      buildGrid_fields Let_def)

lemma animBlock_moleState:
  "animBlock now rp s = Inr s' \<Longrightarrow> moleState s' = moleState s \<or> moleState s' = MDown"
  by (auto simp: animBlock_def Let_def scheduleNextPop_def
      split: if_splits option.splits anim_kind.splits)

lemma updateMole_stays_down:
  assumes "moleState s = MDown" and "\<not> popDue now s" and "updateMole now rh rp s = Inr s'"
  shows "moleState s' = MDown"
proof -
  have p: "popBlock now rh s = Inr s" using assms(2) by (simp add: popBlock_def)
  obtain s2 where s2: "animBlock now rp s = Inr s2" "s' = timeoutBlock now s2"
    using assms(3) by (auto simp: updateMole_def p split: sum.splits)
  have "moleState s2 = MDown" using animBlock_moleState [OF s2(1)] assms(1) by auto
  then show ?thesis by (simp add: s2(2) timeoutBlock_def)
qed

lemma step_stays_down:
  assumes "moleState s = MDown" and "\<not> popStep e s" and "step e s = Inr s'"
  shows "moleState s' = MDown"
proof (cases e)
  case (Frame time pose rndHole rndPop)
  define s1 where "s1 = updateReticle pose s"
  have d: "moleState s1 = MDown"
    using assms(1) by (simp add: s1_def updateReticle_def split: option.splits)
  show ?thesis
  proof (cases "\<not> paused s1 \<and> placed s1")
    case True
    then have "\<not> popDue time s1" using assms(2) by (simp add: Frame popStep_def s1_def)
    moreover have "updateMole time rndHole rndPop s1 = Inr s'"
      using assms(3) True by (simp add: Frame onXRFrame_def Let_def s1_def)
    ultimately show ?thesis using updateMole_stays_down [OF d] by blast
  next
    case False
    then have "s' = s1" using assms(3) by (auto simp: Frame onXRFrame_def Let_def s1_def)
    then show ?thesis using d by simp
  qed
next
  case (PointerDown hit now rnd origin fwd)
  then show ?thesis using assms(1,3) tap_down_ignored [OF assms(1)] by auto
next
  case PauseClick
  then show ?thesis using assms(1,3) by (auto simp: togglePause_def)
next
  case ResetClick
  then show ?thesis using assms(3) by (auto simp: resetGame_def clearGrid_def)
next
  case (SessionStart now rnd)
  then show ?thesis using assms(1,3) by (auto simp: sessionStart_def scheduleNextPop_def)
next
  case SessionEnd
  then show ?thesis using assms(3) by (auto simp: sessionEnd_def clearGrid_def)
qed

lemma hitStep_goes_down:
  assumes "hitStep e s" and "step e s = Inr s'"
  shows "moleState s = MUp \<and> moleState s' = MDown \<and> \<not> popStep e s"
  using assms by (cases e) (auto simp: hitStep_def popStep_def onPointerDown_def whackMole_def)

lemma step_balance:
  assumes "step e s = Inr s'"
  shows "(if hitStep e s then 1 else 0) + armed s' \<le> (if popStep e s then 1 else 0) + armed s"
proof (cases "hitStep e s")
  case True
  then show ?thesis using hitStep_goes_down [OF True assms] by (simp add: armed_def)
next
  case False
  show ?thesis
  proof (cases "moleState s = MDown \<and> \<not> popStep e s")
    case True
    then have "moleState s' = MDown" using step_stays_down assms by blast
    then show ?thesis using False by (simp add: armed_def)
  next
    case F2: False
    then show ?thesis using False by (cases "moleState s") (auto simp: armed_def)
  qed
qed

lemma run_balance:
  "run es s = Inr s' \<Longrightarrow> hitSteps es s + armed s' \<le> popSteps es s + armed s"
proof (induction es arbitrary: s)
  case Nil
  then show ?case by simp
next
  case (Cons e es)
  from Cons.prems obtain s1 where s1: "step e s = Inr s1" "run es s1 = Inr s'"
    by (auto split: sum.splits)
  have "hitSteps es s1 + armed s' \<le> popSteps es s1 + armed s1" using Cons.IH [OF s1(2)] .
  moreover have "(if hitStep e s then 1 else 0) + armed s1 \<le> (if popStep e s then 1 else 0) + armed s"
    using step_balance [OF s1(1)] .
  ultimately show ?case using s1(1) by simp
qed

lemma run_after_hit: "run demo_after_hit demo_hit = Inr demo_bonked"
  by (simp add: demo_after_hit_def demo_bonked_def demo_defs handler_defs mole_defs const_defs)

lemma popSteps_after_hit: "popSteps demo_after_hit demo_hit = 0"
  by (simp add: demo_after_hit_def popStep_def demo_defs handler_defs mole_defs const_defs)

lemma popSteps_next_cycle:
  "popSteps demo_next_cycle demo_hit = 1 \<and> hitSteps demo_next_cycle demo_hit = 1"
  by (simp add: demo_next_cycle_def popStep_def hitStep_def demo_defs handler_defs mole_defs
      const_defs)

subsection \<open>The rotation of a quaternion\<close>

text \<open>
  \<open>applyQuaternion\<close> is multiplication by the rotation matrix of the quaternion.
\<close>

lemma applyQuaternion_matrix:
  "applyQuaternion q v =
     Vec3 ((1 - 2 * ((qy q)\<^sup>2 + (qz q)\<^sup>2)) * vx v + 2 * (qx q * qy q - qw q * qz q) * vy v +
             2 * (qx q * qz q + qw q * qy q) * vz v)
          (2 * (qx q * qy q + qw q * qz q) * vx v + (1 - 2 * ((qx q)\<^sup>2 + (qz q)\<^sup>2)) * vy v +
             2 * (qy q * qz q - qw q * qx q) * vz v)
          (2 * (qx q * qz q - qw q * qy q) * vx v + 2 * (qy q * qz q + qw q * qx q) * vy v +
             (1 - 2 * ((qx q)\<^sup>2 + (qy q)\<^sup>2)) * vz v)"
  by (simp add: applyQuaternion_def Let_def power2_eq_square algebra_simps)

section \<open>The claims\<close>

subsection \<open>Reset\<close>

text \<open>
  Claim C10. From every state, \<open>resetGame\<close> leaves \<open>paused = false\<close> (and
  \<open>placed = false\<close>), whatever the pause flag was before. So a reset made while the game
  is paused resumes it: after the next placing tap, every frame calls \<open>updateMole\<close>.
\<close>

theorem resetGame_unpauses:
  "\<not> paused (resetGame s) \<and> \<not> placed (resetGame s) \<and>
   onXRFrame time pose rndHole rndPop (onPointerDown hit now rnd origin fwd (resetGame s)) =
     updateMole time rndHole rndPop
       (updateReticle pose (onPointerDown hit now rnd origin fwd (resetGame s)))"
  by (simp add: resetGame_def clearGrid_def onXRFrame_def updateReticle_def onPointerDown_def
      scheduleNextPop_def buildGrid_fields Let_def split: option.splits)

subsection \<open>Taps outside the Up phase\<close>

text \<open>
  Claim C3, as the code has it. In a reachable state whose phase is not \<open>Up\<close>, a tap
  leaves score, streak, \<open>moleState\<close> and the phase unchanged unless \<open>moleState\<close> is
  \<open>'up'\<close> and the ray meets the mole; in that case it is a hit: score and streak grow by 1
  and \<open>moleState\<close> becomes \<open>'down'\<close>. The code sets \<open>moleState = 'up'\<close> when the mole
  pops and keeps it until a \<open>hide\<close> animation has ended, so the rise and the retreat after
  a timeout are hittable.
\<close>

theorem tap_outside_up:
  assumes "reachable s" and "phase s \<noteq> Up"
    and "s' = onPointerDown hit now rnd origin fwd s"
  shows "if hit \<and> moleState s = MUp
         then score s' = score s + 1 \<and> streak s' = streak s + 1 \<and> moleState s' = MDown
         else score s' = score s \<and> streak s' = streak s \<and> moleState s' = moleState s \<and>
              phase s' = phase s"
proof (cases "hit \<and> moleState s = MUp")
  case True
  then have "placed s" using up_placed assms(1) by blast
  with True assms(3) show ?thesis by (simp add: onPointerDown_def whackMole_def)
next
  case False
  then show ?thesis using assms(3)
    by (auto simp: onPointerDown_def whackMole_def phase_def scheduleNextPop_def
        buildGrid_fields Let_def)
qed

theorem tap_outside_up_witness:
  "score (onPointerDown True 1210 0 (Vec3 0 0 0) (Vec3 0 0 0) demo_hit) = 1 \<and>
   streak (onPointerDown True 1210 0 (Vec3 0 0 0) (Vec3 0 0 0) demo_hit) = 1 \<and>
   moleState (onPointerDown True 1210 0 (Vec3 0 0 0) (Vec3 0 0 0) demo_hit) = MDown \<and>
   phase (onPointerDown True 1210 0 (Vec3 0 0 0) (Vec3 0 0 0) demo_hit) = Retreating"
  using tap_outside_up [OF reach_hit _ refl, of True 1210 0 "Vec3 0 0 0" "Vec3 0 0 0"]
  by (simp add: phase_def demo_defs)

text \<open>
  Claim C3 as stated fails: in the reachable state \<open>demo_rising\<close> the mole is rising, and in
  \<open>demo_timeout\<close> it retreats after a timeout; in both a tap that meets the mole adds 1 to
  score and streak and takes \<open>moleState\<close> from \<open>'up'\<close> to \<open>'down'\<close>.
\<close>

theorem tap_while_rising_scores:
  "reachable demo_rising \<and> phase demo_rising = Rising \<and>
   score (onPointerDown True 1090 0 (Vec3 0 0 0) (Vec3 0 0 0) demo_rising) =
     score demo_rising + 1 \<and>
   streak (onPointerDown True 1090 0 (Vec3 0 0 0) (Vec3 0 0 0) demo_rising) =
     streak demo_rising + 1 \<and>
   moleState demo_rising = MUp \<and>
   moleState (onPointerDown True 1090 0 (Vec3 0 0 0) (Vec3 0 0 0) demo_rising) = MDown \<and>
   reachable demo_timeout \<and> phase demo_timeout = Retreating \<and>
   score (onPointerDown True 2250 0 (Vec3 0 0 0) (Vec3 0 0 0) demo_timeout) =
     score demo_timeout + 1 \<and>
   streak (onPointerDown True 2250 0 (Vec3 0 0 0) (Vec3 0 0 0) demo_timeout) =
     streak demo_timeout + 1 \<and>
   moleState demo_timeout = MUp \<and>
   moleState (onPointerDown True 2250 0 (Vec3 0 0 0) (Vec3 0 0 0) demo_timeout) = MDown"
  using reach_rising reach_timeout
  by (simp add: phase_def demo_defs onPointerDown_def whackMole_def)

subsection \<open>The active hole index\<close>

text \<open>
  Claim C4, as the code has it. In every reachable state in which \<open>moleState\<close> is \<open>'up'\<close>
  or the phase is not \<open>Down\<close> (so in particular in phase \<open>Up\<close>), \<open>activeHoleIndex\<close>
  is a valid index into \<open>holes\<close>. Only this direction holds: \<open>resetGame\<close> and the
  \<open>sessionend\<close> listener leave \<open>activeHoleIndex\<close> as it was, and so does the end of a retreat.
\<close>

theorem up_has_valid_index:
  assumes "reachable s" and "moleState s = MUp \<or> phase s \<noteq> Down"
  shows "validIndex s \<and> activeHoleIndex (resetGame s) = activeHoleIndex s \<and>
         activeHoleIndex (sessionEnd s) = activeHoleIndex s"
proof -
  have "mole_visible s"
    using assms reachable_inv [of s] by (auto simp: game_inv_def phase_def split: if_splits)
  then have "validIndex s" using reachable_inv [OF assms(1)] by (simp add: game_inv_def)
  then show ?thesis by (simp add: resetGame_def sessionEnd_def clearGrid_def)
qed

theorem up_has_valid_index_witness:
  "validIndex demo_up \<and> activeHoleIndex (resetGame demo_up) = 0 \<and>
   activeHoleIndex (sessionEnd demo_up) = 0"
  using up_has_valid_index [OF reach_up] by (simp add: demo_defs)

text \<open>
  Claim C4 as stated fails: \<open>demo_down\<close> is reachable, the mole is down after its retreat,
  and \<open>activeHoleIndex\<close> is still 0, a valid index. A reset in \<open>demo_up\<close> keeps the index
  0 as well, and after the next placing tap it is a valid index of the new grid while the
  mole is down.
\<close>

theorem stale_index_while_down:
  "reachable demo_down \<and> phase demo_down = Down \<and> moleState demo_down = MDown \<and>
   activeHoleIndex demo_down = 0 \<and> validIndex demo_down \<and>
   step ResetClick demo_up = Inr (resetGame demo_up) \<and>
   activeHoleIndex (resetGame demo_up) = 0 \<and>
   moleState (onPointerDown False 3000 0 (Vec3 0 0 0) (Vec3 0 0 0) (resetGame demo_up)) = MDown \<and>
   validIndex (onPointerDown False 3000 0 (Vec3 0 0 0) (Vec3 0 0 0) (resetGame demo_up))"
  using reach_down
  by (simp add: phase_def demo_defs validIndex_def resetGame_def clearGrid_def
      onPointerDown_def scheduleNextPop_def buildGrid_eq GRID_def upt_rec numeral_eq_Suc)

subsection \<open>Scheduling the next pop\<close>

text \<open>
  Claim C7, on the hit path. The tap at 1200 ms hits the mole of \<open>demo_up\<close>:
  \<open>whackMole\<close> sets \<open>moleState = 'down'\<close> and leaves \<open>nextPopAt\<close> at 700, a time already
  past. The frame at 1216 ms therefore takes the pop branch at once: the mole is up again
  16 ms after the hit, not 700 ms or more after its retreat, and the \<open>bonk\<close> animation
  whose end would call \<open>scheduleNextPop\<close> is overwritten.
\<close>

theorem hit_path_skips_schedule:
  "step (tap_hit 1200) demo_up = Inr demo_hit \<and> moleState demo_hit = MDown \<and>
   nextPopAt demo_hit = nextPopAt demo_up \<and> nextPopAt demo_up = 700 \<and>
   step (frame_at 1216) demo_hit = Inr demo_repop \<and> moleState demo_repop = MUp \<and>
   phase demo_repop = Rising \<and> upSince demo_repop = 1216 \<and>
   upSince demo_repop < 1200 + POP_INTERVAL_MIN"
  by (simp add: step_hit step_repop) (simp add: demo_defs phase_def POP_INTERVAL_MIN_def)

subsection \<open>The rise\<close>

text \<open>
  Claim C6. When the pop branch fires at time \<open>tp\<close> it starts the \<open>pop\<close> animation with
  \<open>t0 = tp\<close> and \<open>dur = 180\<close>, and the phase is \<open>Rising\<close>. After any number of frames
  whose time is less than \<open>tp + 180\<close> the phase is still \<open>Rising\<close>. At a frame at time
  \<open>now\<close> the animation block of \<open>updateMole\<close> leaves the phase \<open>Rising\<close> when
  \<open>now - tp < 180\<close> and makes it \<open>Up\<close> exactly when \<open>now - tp \<ge> 180\<close>. After the whole
  call the phase is \<open>Rising\<close> exactly when \<open>now - tp < 180\<close>, and it is \<open>Up\<close> exactly when
  \<open>180 \<le> now - tp \<le> UP_DURATION\<close>: a frame later than that finds the mole up and
  overdue, and the timeout block of the same call sends it into its retreat.
  With \<open>tp = 1000\<close>: the frame at 1090 reports \<open>Rising\<close>, the frame at 1180 \<open>Up\<close>.
\<close>

theorem rise_lasts_180:
  assumes "popDue tp s" and "unitDraw rh" and "\<forall>f\<in>set fs. fst f - tp < 180"
  shows "\<exists>s0 s1 s2 s3.
     updateMole tp rh rp s = Inr s0 \<and> risingSince tp s0 \<and> phase s0 = Rising \<and>
     frames fs s0 = Inr s1 \<and> risingSince tp s1 \<and> phase s1 = Rising \<and>
     animBlock now rp' s1 = Inr s2 \<and>
     (phase s2 = Rising \<longleftrightarrow> now - tp < 180) \<and> (phase s2 = Up \<longleftrightarrow> now - tp \<ge> 180) \<and>
     updateMole now rh' rp' s1 = Inr s3 \<and>
     (phase s3 = Rising \<longleftrightarrow> now - tp < 180) \<and>
     (phase s3 = Up \<longleftrightarrow> 180 \<le> now - tp \<and> now - tp \<le> UP_DURATION)"
proof -
  obtain s0 where s0: "updateMole tp rh rp s = Inr s0" "risingSince tp s0"
    using pop_rising [OF assms(1,2)] by blast
  obtain s1 where s1: "frames fs s0 = Inr s1" "risingSince tp s1"
    using rising_frames [OF s0(2) assms(3)] by blast
  obtain s2 where s2: "animBlock now rp' s1 = Inr s2"
     "phase s2 = Up \<longleftrightarrow> now - tp \<ge> 180" "phase s2 = Rising \<longleftrightarrow> now - tp < 180"
    using rising_anim [OF s1(2), of now rp'] by blast
  obtain s3 where s3: "updateMole now rh' rp' s1 = Inr s3"
     "phase s3 = Rising \<longleftrightarrow> now - tp < 180"
     "phase s3 = Up \<longleftrightarrow> 180 \<le> now - tp \<and> now - tp \<le> UP_DURATION"
    using rising_update [OF s1(2), of now rh' rp'] by blast
  show ?thesis using s0 s1 s2 s3 rising_phase by blast
qed

theorem rise_lasts_180_witness:
  "\<exists>s0 s1 s3. updateMole 1000 0 0 demo_placed = Inr s0 \<and> phase s0 = Rising \<and>
     frames [(1090, 0, 0)] s0 = Inr s1 \<and> phase s1 = Rising \<and>
     updateMole 1180 0 0 s1 = Inr s3 \<and> phase s3 = Up"
proof -
  have p: "popDue 1000 demo_placed" by (simp add: popDue_def demo_defs)
  have u: "unitDraw 0" by (simp add: unitDraw_def)
  have b: "\<forall>f\<in>set [(1090::real, 0::real, 0::real)]. fst f - 1000 < 180" by simp
  show ?thesis
    using rise_lasts_180 [OF p u b, of 0 1180 0 0] by (simp add: UP_DURATION_def) blast
qed

subsection \<open>Pausing\<close>

text \<open>
  Claim C8, as the code has it. Let the game be running with the mole in phase \<open>Up\<close>. After
  a click on pause and any number of frames the state is the one at the click, up to the
  reticle: a frame of a paused game changes nothing of the target, the score or the
  timers. After the click that resumes the game, the first frame, at time \<open>now\<close>, resets
  the streak and starts the retreat exactly when \<open>now - upSince > UP_DURATION\<close>, where
  \<open>upSince\<close> is still the time of the pop: the timeout is measured on the wall clock, and
  the length of the pause is not added to it.
\<close>

theorem pause_is_wall_clock:
  assumes "reachable s" and "\<not> paused s" and "phase s = Up" and "list_all isFrame fs"
  shows "\<exists>s1 s2.
     run (PauseClick # fs) s = Inr s1 \<and> paused s1 \<and>
     s1 = withReticleOf s1 (s\<lparr>paused := True\<rparr>) \<and>
     run (PauseClick # fs @ [PauseClick, Frame now pose rh rp]) s = Inr s2 \<and>
     (if now - upSince s > UP_DURATION then streak s2 = 0 \<and> phase s2 = Retreating
      else streak s2 = streak s \<and> phase s2 = Up)"
proof -
  define sp where "sp = s\<lparr>paused := True\<rparr>"
  have tp: "togglePause s = sp" using assms(2) by (simp add: togglePause_def sp_def)
  have "paused sp" "sp = withReticleOf sp sp" by (simp_all add: sp_def withReticleOf_def)
  then obtain s1 where s1: "run fs sp = Inr s1" "paused s1" "s1 = withReticleOf s1 sp"
    using paused_frames [OF _ _ assms(4)] by blast
  define sr where "sr = togglePause s1"
  have inv: "game_inv s" using reachable_inv [OF assms(1)] .
  have sr_eq: "sr = withReticleOf s1 s"
    using s1(2,3) assms(2)
    by (cases s1, cases s) (auto simp: sr_def sp_def togglePause_def withReticleOf_def)
  have inv_r: "game_inv sr"
    using inv unfolding sr_eq by (auto simp: game_inv_def withReticleOf_def validIndex_def activeHole_def)
  have ph: "phase sr = Up \<and> \<not> paused sr \<and> upSince sr = upSince s \<and> streak sr = streak s"
    using assms(2,3) unfolding sr_eq
    by (auto simp: phase_def withReticleOf_def split: if_splits option.splits)
  obtain s2 where s2: "onXRFrame now pose rh rp sr = Inr s2"
     "if now - upSince sr > UP_DURATION then streak s2 = 0 \<and> phase s2 = Retreating
      else streak s2 = streak sr \<and> phase s2 = Up"
    using up_frame [of sr now pose rh rp] inv_r ph by blast
  have r1: "run (PauseClick # fs) s = Inr s1" using s1(1) tp by simp
  have run_app: "\<And>es es' a b. run es a = Inr b \<Longrightarrow> run (es @ es') a = run es' b"
  proof -
    fix es es' a b show "run es a = Inr b \<Longrightarrow> run (es @ es') a = run es' b"
      by (induction es arbitrary: a) (auto split: sum.splits)
  qed
  have "run ((PauseClick # fs) @ [PauseClick, Frame now pose rh rp]) s = Inr s2"
    using run_app [OF r1] s2(1) by (simp add: sr_def)
  then show ?thesis using r1 s1(2,3) s2(2) ph by (auto simp: sp_def)
qed

theorem pause_is_wall_clock_witness:
  "\<exists>s1 s2. run [PauseClick, frame_at 1401, frame_at 2199] demo_up2 = Inr s1 \<and> paused s1 \<and>
      s1 = withReticleOf s1 (demo_up2\<lparr>paused := True\<rparr>) \<and>
      run [PauseClick, frame_at 1401, frame_at 2199, PauseClick, frame_at 2200] demo_up2 = Inr s2 \<and>
      streak s2 = 0 \<and> phase s2 = Retreating"
proof -
  have a: "\<not> paused demo_up2" "phase demo_up2 = Up" by (simp_all add: demo_defs phase_def)
  have b: "list_all isFrame [frame_at 1401, frame_at 2199]" by (simp add: isFrame_def frame_at_def)
  show ?thesis
    using pause_is_wall_clock [OF reach_up2 a b, of 2200 None 0 0]
    by (simp add: frame_at_def demo_defs UP_DURATION_def)
qed

text \<open>
  Claim C8 as stated fails. In \<open>demo_up2\<close> the mole popped at 1216 ms, is up, and the streak
  is 1. The game is paused before the frame at 1401 ms and resumed after the frame at
  2199 ms, so it has run for less than 186 ms since the pop; the paused frames change
  nothing. The frame at 2200 ms nevertheless resets the streak and starts the retreat, as
  it does without any pause. Without the pause, the frames at 1401 and 1402 ms leave the
  mole up. Moreover a tap is resolved while the game is paused: it scores and takes the
  target out of \<open>Up\<close>.
\<close>

theorem pause_causes_miss:
  "run [PauseClick, frame_at 1401, frame_at 2199] demo_up2 = Inr (demo_up2\<lparr>paused := True\<rparr>) \<and>
   run [PauseClick, frame_at 1401, frame_at 2199, PauseClick, frame_at 2200] demo_up2 = Inr demo_timeout \<and>
   phase demo_up2 = Up \<and> streak demo_up2 = 1 \<and>
   phase demo_timeout = Retreating \<and> streak demo_timeout = 0 \<and>
   (1401 - upSince demo_up2) + (2200 - 2199) < UP_DURATION \<and>
   run [frame_at 1401, frame_at 1402] demo_up2 = Inr demo_up2 \<and>
   score (onPointerDown True 1500 0 (Vec3 0 0 0) (Vec3 0 0 0) (demo_up2\<lparr>paused := True\<rparr>)) = 2 \<and>
   phase (onPointerDown True 1500 0 (Vec3 0 0 0) (Vec3 0 0 0) (demo_up2\<lparr>paused := True\<rparr>)) = Retreating"
  by (simp add: demo_defs handler_defs mole_defs const_defs phase_def)

subsection \<open>Idempotence of a frame\<close>

text \<open>
  Claim C9. In every reachable state, \<open>updateMole\<close> at time \<open>now\<close> returns a state
  \<open>s'\<close> (it does not throw), and a second call at the same \<open>now\<close>, with whatever draws
  \<open>Math.random()\<close> would give it, returns \<open>s'\<close> again: the whole state, with the mole's
  position, the streak and \<open>nextPopAt\<close>, is the same. In the second call no pop is due
  and the timeout branch is not taken.
\<close>

theorem updateMole_idempotent:
  assumes "reachable s" and "unitDraw rh" and "unitDraw rp"
  shows "\<exists>s'. updateMole now rh rp s = Inr s' \<and>
              updateMole now rh' rp' s' = Inr s' \<and>
              \<not> popDue now s' \<and> \<not> timeoutFires (now, rh', rp') s'"
proof -
  obtain s' where s': "updateMole now rh rp s = Inr s'" "settledAt now s'"
    using updateMole_settles [OF reachable_inv [OF assms(1)] assms(2,3)] by blast
  have f: "updateMole now rh' rp' s' = Inr s'" using settled_fix [OF s'(2)] .
  have "popBlock now rh' s' = Inr s'" using s'(2) by (simp add: settledAt_def popBlock_def)
  moreover have "animBlock now rp' s' = Inr s'"
    using s'(2) by (simp add: settledAt_def animSettled_fix)
  ultimately have "\<not> timeoutFires (now, rh', rp') s'"
    using s'(2) by (simp add: timeoutFires_def settledAt_def)
  then show ?thesis using s' f by (auto simp: settledAt_def)
qed

theorem updateMole_idempotent_witness:
  "updateMole 2200 0 0 demo_up2 = Inr demo_timeout \<and>
   updateMole 2200 0.5 0.5 demo_timeout = Inr demo_timeout \<and>
   \<not> popDue 2200 demo_timeout \<and> \<not> timeoutFires (2200, 0.5, 0.5) demo_timeout"
proof -
  have u: "unitDraw 0" by (simp add: unitDraw_def)
  have e: "updateMole 2200 0 0 demo_up2 = Inr demo_timeout"
    using step_timeout by (simp add: frame_at_def onXRFrame_def updateReticle_def demo_defs)
  show ?thesis
    using updateMole_idempotent [OF reach_up2 u u, of 2200 "0.5" "0.5"] by (simp add: e)
qed

subsection \<open>The timeout\<close>

text \<open>
  Claim C2. Take a reachable state in which the mole has popped and no hit or timeout has
  ended its cycle yet (\<open>moleState = 'up'\<close>, phase \<open>Rising\<close> or \<open>Up\<close>), and any run of
  frames that stays within this pop cycle (no frame takes the pop branch). The run does not
  throw and leaves the score as it was. The timeout branch, the only place where a frame
  assigns \<open>streak = 0\<close>, is taken exactly once if some frame of the run comes later than
  \<open>UP_DURATION\<close> after \<open>upSince\<close>, and not at all otherwise; the streak is 0 after the run in
  the first case and unchanged in the second. \<open>upSince\<close> is the time of the pop, so every
  frame that comes \<open>UP_DURATION\<close> or more after the mole became \<open>Up\<close> is such a frame.
\<close>

theorem timeout_resets_streak_once:
  assumes "reachable s" and "moleState s = MUp" and "phase s = Rising \<or> phase s = Up"
    and "list_all frameDrawsOk fs" and "popCount fs s = 0"
  shows "\<exists>s'. frames fs s = Inr s' \<and> score s' = score s \<and>
     timeoutCount fs s = (if \<exists>f\<in>set fs. fst f - upSince s > UP_DURATION then 1 else 0) \<and>
     streak s' = (if \<exists>f\<in>set fs. fst f - upSince s > UP_DURATION then 0 else streak s)"
  using before_timeout_frames [OF reachable_inv [OF assms(1)] assms(2-5)] .

theorem timeout_resets_streak_once_witness:
  "\<exists>s'. frames [(1416, 0, 0), (2200, 0, 0), (2216, 0, 0), (2360, 0, 0), (2376, 0, 0)] demo_up2
          = Inr s' \<and>
        score s' = 1 \<and>
        timeoutCount [(1416, 0, 0), (2200, 0, 0), (2216, 0, 0), (2360, 0, 0), (2376, 0, 0)] demo_up2
          = 1 \<and>
        streak s' = 0 \<and> streak demo_up2 = 1"
proof -
  let ?fs = "[(1416, 0, 0), (2200, 0, 0), (2216, 0, 0), (2360, 0, 0), (2376, 0, 0)] :: frame list"
  have a: "moleState demo_up2 = MUp" "phase demo_up2 = Rising \<or> phase demo_up2 = Up"
    by (simp_all add: demo_defs phase_def)
  have b: "list_all frameDrawsOk ?fs" by (simp add: frameDrawsOk_def unitDraw_def)
  have c: "popCount ?fs demo_up2 = 0"
    by (simp add: updateMoleF_def demo_defs mole_defs const_defs)
  show ?thesis
    using timeout_resets_streak_once [OF reach_up2 a b c]
    by (simp add: demo_defs UP_DURATION_def)
qed

subsection \<open>Hits\<close>

text \<open>
  Claim C1. In every reachable state with \<open>moleState = 'up'\<close> (which covers the phase
  \<open>Up\<close>), a tap whose ray meets the mole adds exactly 1 to score and to streak and takes the
  mole out of \<open>Up\<close> at once: \<open>moleState\<close> is \<open>'down'\<close> and the phase is \<open>Retreating\<close>.
  A tap changes score and streak exactly when it is a hit step, and then by 1. Along every
  run of events after the hit (frames, taps, pause, reset, session start and end, in any
  order) the hit steps are at most as many as the pop steps: a further hit needs a frame
  that takes the pop branch of \<open>updateMole\<close> first, so each pop cycle honours at most one
  hit. In particular, as long as no frame has taken the pop branch, \<open>moleState\<close> is
  \<open>'down'\<close> and a second tap changes neither score nor streak.
\<close>

theorem one_hit_per_cycle:
  assumes "reachable s" and "moleState s = MUp"
    and "s1 = onPointerDown True now rnd origin fwd s"
    and "run es s1 = Inr s2"
    and "s3 = onPointerDown hit' now' rnd' origin' fwd' s2"
  shows "score s1 = score s + 1 \<and> streak s1 = streak s + 1 \<and> moleState s1 = MDown \<and>
         phase s1 = Retreating \<and>
         hitSteps es s1 \<le> popSteps es s1 \<and>
         score s3 = score s2 +
           (if hitStep (PointerDown hit' now' rnd' origin' fwd') s2 then 1 else 0) \<and>
         streak s3 = streak s2 +
           (if hitStep (PointerDown hit' now' rnd' origin' fwd') s2 then 1 else 0) \<and>
         (popSteps es s1 = 0 \<longrightarrow>
            moleState s2 = MDown \<and> score s3 = score s2 \<and> streak s3 = streak s2 \<and>
            moleState s3 = MDown)"
proof -
  have pv: "placed s \<and> mole_visible s" using up_placed assms(1,2) by blast
  have a: "score s1 = score s + 1 \<and> streak s1 = streak s + 1 \<and> moleState s1 = MDown \<and>
         phase s1 = Retreating"
    using pv assms(2,3) by (simp add: onPointerDown_def whackMole_def phase_def)
  then have z: "armed s1 = 0" by (simp add: armed_def)
  have b: "hitSteps es s1 + armed s2 \<le> popSteps es s1"
    using run_balance [OF assms(4)] z by simp
  have t: "score s3 = score s2 +
           (if hitStep (PointerDown hit' now' rnd' origin' fwd') s2 then 1 else 0) \<and>
         streak s3 = streak s2 +
           (if hitStep (PointerDown hit' now' rnd' origin' fwd') s2 then 1 else 0)"
    unfolding assms(5) by (rule tap_score)
  have c: "popSteps es s1 = 0 \<longrightarrow>
            moleState s2 = MDown \<and> score s3 = score s2 \<and> streak s3 = streak s2 \<and>
            moleState s3 = MDown"
  proof
    assume "popSteps es s1 = 0"
    then have "armed s2 = 0" using b by simp
    then have d: "moleState s2 = MDown" by (cases "moleState s2") (simp_all add: armed_def)
    show "moleState s2 = MDown \<and> score s3 = score s2 \<and> streak s3 = streak s2 \<and>
            moleState s3 = MDown"
      using d tap_down_ignored [OF d] assms(5) by simp
  qed
  show ?thesis using a b t c by simp
qed

theorem one_hit_per_cycle_witness:
  "score demo_hit = score demo_up + 1 \<and> streak demo_hit = streak demo_up + 1 \<and>
   moleState demo_hit = MDown \<and> phase demo_hit = Retreating \<and>
   run demo_after_hit demo_hit = Inr demo_bonked \<and>
   popSteps demo_after_hit demo_hit = 0 \<and> hitSteps demo_after_hit demo_hit = 0 \<and>
   moleState demo_bonked = MDown \<and>
   score (onPointerDown True 1360 0 (Vec3 0 0.8 1.5) (Vec3 0 0 (- 1)) demo_bonked) = 1 \<and>
   streak (onPointerDown True 1360 0 (Vec3 0 0.8 1.5) (Vec3 0 0 (- 1)) demo_bonked) = 1 \<and>
   popSteps demo_next_cycle demo_hit = 1 \<and> hitSteps demo_next_cycle demo_hit = 1"
proof -
  have h: "demo_hit = onPointerDown True 1200 0 (Vec3 0 0.8 1.5) (Vec3 0 0 (- 1)) demo_up"
    using step_hit by (simp add: tap_hit_def)
  have u: "moleState demo_up = MUp" by (simp add: demo_defs)
  have v: "score demo_bonked = 1 \<and> streak demo_bonked = 1"
    by (simp add: demo_bonked_def demo_defs)
  show ?thesis
    using one_hit_per_cycle [OF reach_up u h run_after_hit refl,
        of True 1360 0 "Vec3 0 0.8 1.5" "Vec3 0 0 (- 1)"]
    by (simp add: popSteps_after_hit run_after_hit v popSteps_next_cycle)
qed

subsection \<open>Grid layout\<close>

text \<open>
  Claim C5. For every pose of \<open>gridRoot\<close>, \<open>buildGrid\<close> discards the old holes and
  leaves exactly \<open>GRID * GRID = 9\<close> holes, in row-major order; the hole of cell \<open>(r, c)\<close>
  is the specification's local offset \<open>((c - (cols-1)/2) * spacing, (r - (rows-1)/2) * spacing)\<close>
  in the plane \<open>y = 0\<close>, rotated by the pose's quaternion and translated by its position:
  in coordinates, the position of the pose plus the rotation matrix of the quaternion
  applied to \<open>(x, 0, z)\<close>. The result depends on the pose and the constants only. At the
  identity pose the nine holes are distinct and are exactly the points \<open>(x, 0, z)\<close> with
  \<open>x\<close> and \<open>z\<close> in \<open>{-0.38, 0, 0.38}\<close>. Two further poses are evaluated: the grid at
  \<open>(1, 2, 3)\<close> turned about the vertical axis by the quaternion \<open>(0, 3/5, 0, 4/5)\<close>, and
  the grid at the origin turned by half a turn about the \<open>x\<close> axis, which mirrors the rows.
\<close>

theorem buildGrid_layout:
  "holes (buildGrid s) =
     [holePosition (gridRoot_position s) (gridRoot_quaternion s) r c.
        r \<leftarrow> [0, 1, 2], c \<leftarrow> [0, 1, 2]] \<and>
   length (holes (buildGrid s)) = GRID * GRID \<and> GRID * GRID = 9 \<and> SPACING = 0.38 \<and>
   holePosition p q r c =
     vadd (applyQuaternion q (Vec3 (fst (spec_localOffset GRID GRID SPACING r c)) 0
                                   (snd (spec_localOffset GRID GRID SPACING r c)))) p \<and>
   holePosition p q r c =
     Vec3 (vx p + (1 - 2 * ((qy q)\<^sup>2 + (qz q)\<^sup>2)) * fst (spec_localOffset GRID GRID SPACING r c)
                + 2 * (qx q * qz q + qw q * qy q) * snd (spec_localOffset GRID GRID SPACING r c))
          (vy p + 2 * (qx q * qy q + qw q * qz q) * fst (spec_localOffset GRID GRID SPACING r c)
                + 2 * (qy q * qz q - qw q * qx q) * snd (spec_localOffset GRID GRID SPACING r c))
          (vz p + 2 * (qx q * qz q - qw q * qy q) * fst (spec_localOffset GRID GRID SPACING r c)
                + (1 - 2 * ((qx q)\<^sup>2 + (qy q)\<^sup>2)) * snd (spec_localOffset GRID GRID SPACING r c)) \<and>
   applyQuaternion (Quat 0 0 0 1) v = v \<and> vadd v (Vec3 0 0 0) = v \<and>
   set (holes (buildGrid
          (s\<lparr>gridRoot_position := Vec3 0 0 0, gridRoot_quaternion := Quat 0 0 0 1\<rparr>))) =
     (\<lambda>(x, z). Vec3 x 0 z) ` ({- 0.38, 0, 0.38} \<times> {- 0.38, 0, 0.38}) \<and>
   distinct (holes (buildGrid
          (s\<lparr>gridRoot_position := Vec3 0 0 0, gridRoot_quaternion := Quat 0 0 0 1\<rparr>))) \<and>
   holes (buildGrid
          (s\<lparr>gridRoot_position := Vec3 1 2 3, gridRoot_quaternion := Quat 0 (3 / 5) 0 (4 / 5)\<rparr>)) =
     [Vec3 0.5288 2 3.2584, Vec3 0.6352 2 2.8936, Vec3 0.7416 2 2.5288,
      Vec3 0.8936 2 3.3648, Vec3 1 2 3,           Vec3 1.1064 2 2.6352,
      Vec3 1.2584 2 3.4712, Vec3 1.3648 2 3.1064, Vec3 1.4712 2 2.7416] \<and>
   holes (buildGrid
          (s\<lparr>gridRoot_position := Vec3 0 0 0, gridRoot_quaternion := Quat 1 0 0 0\<rparr>)) =
     [Vec3 (- 0.38) 0 0.38,    Vec3 0 0 0.38,    Vec3 0.38 0 0.38,
      Vec3 (- 0.38) 0 0,       Vec3 0 0 0,       Vec3 0.38 0 0,
      Vec3 (- 0.38) 0 (- 0.38), Vec3 0 0 (- 0.38), Vec3 0.38 0 (- 0.38)]"
  apply (intro conjI)
  subgoal by (simp add: holes_buildGrid GRID_def upt_rec numeral_eq_Suc)
  subgoal by (simp add: holes_buildGrid GRID_def upt_rec numeral_eq_Suc)
  subgoal by (simp add: GRID_def)
  subgoal by (simp add: SPACING_def)
  subgoal by (simp add: holePosition_def spec_localOffset_def Let_def GRID_def algebra_simps)
  subgoal
    by (simp add: holePosition_def spec_localOffset_def Let_def GRID_def applyQuaternion_matrix
        vadd_def algebra_simps)
  subgoal by (cases v) (simp add: applyQuaternion_def)
  subgoal by (cases v) (simp add: vadd_def)
  subgoal
    by (simp add: holes_buildGrid buildGrid_fields GRID_def upt_rec numeral_eq_Suc
        holePosition_def SPACING_def applyQuaternion_def vadd_def Let_def insert_commute)
  subgoal
    by (simp add: holes_buildGrid buildGrid_fields GRID_def upt_rec numeral_eq_Suc
        holePosition_def SPACING_def applyQuaternion_def vadd_def Let_def)
  subgoal
    by (simp add: holes_buildGrid buildGrid_fields GRID_def upt_rec numeral_eq_Suc
        holePosition_def SPACING_def applyQuaternion_def vadd_def Let_def)
  subgoal
    by (simp add: holes_buildGrid buildGrid_fields GRID_def upt_rec numeral_eq_Suc
        holePosition_def SPACING_def applyQuaternion_def vadd_def Let_def)
  done

end
